theory Spec2Isabelle
  imports Complex_Main
begin

section \<open>The numeric layer: masked arrays\<close>

text \<open>
  The notebook \<^verbatim>\<open>1_compute_IVT.ipynb\<close> computes
  \<^verbatim>\<open>np.ma.sqrt(uflux.data*uflux.data+vflux.data*vflux.data)\<close>.
  The operands are numpy (masked) arrays. An array is a dtype, a shape and a row-major
  buffer of cells, as numpy stores a C-contiguous array. A cell is masked (missing), or
  holds a finite number, or holds one of the special values of floating point. A finite
  number is a real; which reals a cell can hold, and what an operation stores for an exact
  result, is decided by the dtype: floating-point dtypes round to nearest (ties to even),
  overflow to infinity and underflow gradually to zero, integer dtypes wrap around.
  Two things are not represented: the number kept in the buffer beneath a masked cell (a
  masked cell has no value), and the sign of a floating-point zero.
\<close>

datatype cell = Masked | Val real | PosInf | NegInf | NaN

datatype dtype =
    float16 | float32 | float64
  | int8 | int16 | int32 | int64
  | uint8 | uint16 | uint32 | uint64

record marray =
  dtype :: dtype
  shape :: "nat list"
  elems :: "cell list"

text \<open>A numpy array always holds as many cells as its shape says.\<close>

definition wf_marray :: "marray \<Rightarrow> bool" where
  "wf_marray a = (length (elems a) = prod_list (shape a))"

datatype pyerr =
    Exception string
  | ValueError
  | IndexError
  | NameError
  | FileNotFoundError string
  | VariableNotFound string
  | AxisNotFound

subsection \<open>Indexing\<close>

text \<open>All multi-indices of a shape, in row-major order (the last axis varies fastest).\<close>

fun indices :: "nat list \<Rightarrow> nat list list" where
  "indices [] = [[]]"
| "indices (n # ns) = concat (map (\<lambda>i. map ((#) i) (indices ns)) [0..<n])"

text \<open>The position of a multi-index in the row-major buffer.\<close>

fun offset :: "nat list \<Rightarrow> nat list \<Rightarrow> nat" where
  "offset (n # ns) (i # js) = i * prod_list ns + offset ns js"
| "offset _ _ = 0"

fun valid_index :: "nat list \<Rightarrow> nat list \<Rightarrow> bool" where
  "valid_index [] [] = True"
| "valid_index (n # ns) (i # js) = (i < n \<and> valid_index ns js)"
| "valid_index _ _ = False"

text \<open>
  The cell read at a multi-index by the element-wise loops. They only read at indices that
  are in range for the array's shape.
\<close>

definition item :: "marray \<Rightarrow> nat list \<Rightarrow> cell" where
  "item a idx = elems a ! offset (shape a) idx"

text \<open>\<^verbatim>\<open>a[idx]\<close> from Python: a full multi-index out of range raises IndexError.\<close>

definition getitem :: "marray \<Rightarrow> nat list \<Rightarrow> pyerr + cell" where
  "getitem a idx = (if valid_index (shape a) idx then Inr (item a idx) else Inl IndexError)"

subsection \<open>Broadcasting\<close>

text \<open>
  numpy aligns the two shapes at their last axes, pads the shorter one with 1 on the left,
  and accepts a pair of extents when they are equal or one of them is 1; the result takes
  the other extent there. Any other pair raises ValueError (operands could not be
  broadcast together).
\<close>

definition pad_shape :: "nat \<Rightarrow> nat list \<Rightarrow> nat list" where
  "pad_shape n s = replicate (n - length s) 1 @ s"

definition compatible :: "nat \<times> nat \<Rightarrow> bool" where
  "compatible p = (fst p = snd p \<or> fst p = 1 \<or> snd p = 1)"

definition broadcast_shapes :: "nat list \<Rightarrow> nat list \<Rightarrow> nat list option" where
  "broadcast_shapes s1 s2 =
     (let n = max (length s1) (length s2);
          ps = zip (pad_shape n s1) (pad_shape n s2)
      in if list_all compatible ps
         then Some (map (\<lambda>p. if fst p = 1 then snd p else fst p) ps)
         else None)"

text \<open>
  The index an operand of shape \<open>s\<close> is read at for the result index \<open>idx\<close>: the leading
  axes the operand does not have are dropped, and an axis of extent 1 is read at 0.
\<close>

definition bcast_index :: "nat list \<Rightarrow> nat list \<Rightarrow> nat list" where
  "bcast_index s idx =
     map (\<lambda>p. if fst p = 1 then 0 else snd p) (zip s (drop (length idx - length s) idx))"

subsection \<open>The dtypes: what is stored for an exact result\<close>

datatype kind = FloatK | SignedK | UnsignedK

fun kind_of :: "dtype \<Rightarrow> kind" where
  "kind_of float16 = FloatK"
| "kind_of float32 = FloatK"
| "kind_of float64 = FloatK"
| "kind_of int8 = SignedK"
| "kind_of int16 = SignedK"
| "kind_of int32 = SignedK"
| "kind_of int64 = SignedK"
| "kind_of uint8 = UnsignedK"
| "kind_of uint16 = UnsignedK"
| "kind_of uint32 = UnsignedK"
| "kind_of uint64 = UnsignedK"

fun bits :: "dtype \<Rightarrow> nat" where
  "bits float16 = 16"
| "bits float32 = 32"
| "bits float64 = 64"
| "bits int8 = 8"
| "bits int16 = 16"
| "bits int32 = 32"
| "bits int64 = 64"
| "bits uint8 = 8"
| "bits uint16 = 16"
| "bits uint32 = 32"
| "bits uint64 = 64"

text \<open>
  The IEEE 754 binary formats: the precision in bits (with the hidden bit) and the
  exponents of the largest and of the smallest normal number. They are used at
  floating-point dtypes only.
\<close>

definition fprec :: "dtype \<Rightarrow> nat" where
  "fprec d = (if bits d = 16 then 11 else if bits d = 32 then 24 else 53)"

definition femax :: "dtype \<Rightarrow> int" where
  "femax d = (if bits d = 16 then 15 else if bits d = 32 then 127 else 1023)"

definition femin :: "dtype \<Rightarrow> int" where
  "femin d = 1 - femax d"

text \<open>Rounding a real to the nearest integer, a tie going to the even one.\<close>

definition rne :: "real \<Rightarrow> int" where
  "rne r =
     (let f = \<lfloor>r\<rfloor>; d = r - of_int f
      in if d < 1 / 2 then f else if 1 / 2 < d then f + 1 else if even f then f else f + 1)"

text \<open>
  Rounding a real to precision \<open>p\<close> with smallest normal exponent \<open>emin\<close> and no bound on
  the exponent above: the exponent of \<open>x\<close> (that of the smallest normal number when \<open>x\<close> is
  below it, which is gradual underflow), the distance between neighbouring numbers there,
  and the nearest multiple of that distance.
\<close>

definition expo :: "int \<Rightarrow> real \<Rightarrow> int" where
  "expo emin x = max \<lfloor>log 2 \<bar>x\<bar>\<rfloor> emin"

definition ulp :: "nat \<Rightarrow> int \<Rightarrow> real \<Rightarrow> real" where
  "ulp p emin x = 2 powr (of_int (expo emin x) - (real p - 1))"

definition rnd_real :: "nat \<Rightarrow> int \<Rightarrow> real \<Rightarrow> real" where
  "rnd_real p emin x = of_int (rne (x / ulp p emin x)) * ulp p emin x"

text \<open>
  What a floating-point operation stores for the exact result \<open>x\<close>: the rounded number, or
  an infinity when the rounded number is beyond the largest finite one.
\<close>

definition round_to :: "dtype \<Rightarrow> real \<Rightarrow> cell" where
  "round_to d x =
     (let y = rnd_real (fprec d) (femin d) x
      in if 2 powr (of_int (femax d) + 1) \<le> \<bar>y\<bar>
         then (if 0 < y then PosInf else NegInf)
         else Val y)"

text \<open>Two's complement wrap-around of an integer to \<open>n\<close> bits.\<close>

definition wrap_signed :: "nat \<Rightarrow> int \<Rightarrow> int" where
  "wrap_signed n i = (i + 2 ^ (n - 1)) mod 2 ^ n - 2 ^ (n - 1)"

definition store :: "dtype \<Rightarrow> real \<Rightarrow> cell" where
  "store d x =
     (case kind_of d of
        FloatK \<Rightarrow> round_to d x
      | SignedK \<Rightarrow> Val (of_int (wrap_signed (bits d) \<lfloor>x\<rfloor>))
      | UnsignedK \<Rightarrow> Val (of_int (\<lfloor>x\<rfloor> mod 2 ^ bits d)))"

subsection \<open>Type promotion and casts\<close>

definition float_of_bits :: "nat \<Rightarrow> dtype" where
  "float_of_bits n = (if n \<le> 16 then float16 else if n \<le> 32 then float32 else float64)"

definition signed_of_bits :: "nat \<Rightarrow> dtype" where
  "signed_of_bits n =
     (if n \<le> 8 then int8 else if n \<le> 16 then int16 else if n \<le> 32 then int32 else int64)"

definition unsigned_of_bits :: "nat \<Rightarrow> dtype" where
  "unsigned_of_bits n =
     (if n \<le> 8 then uint8 else if n \<le> 16 then uint16 else if n \<le> 32 then uint32 else uint64)"

text \<open>
  The smallest floating-point dtype that an integer dtype is cast to: 8-bit integers to
  \<^verbatim>\<open>float16\<close>, 16-bit to \<^verbatim>\<open>float32\<close>, wider ones to \<^verbatim>\<open>float64\<close>. A floating-point dtype is
  its own.
\<close>

definition min_float :: "dtype \<Rightarrow> dtype" where
  "min_float d =
     (if kind_of d = FloatK then d
      else if bits d = 8 then float16 else if bits d = 16 then float32 else float64)"

text \<open>
  A signed with an unsigned integer: the signed dtype when it is the wider one, else the
  signed dtype of twice the unsigned width, and \<^verbatim>\<open>float64\<close> when there is none.
\<close>

definition mixed_ints :: "dtype \<Rightarrow> dtype \<Rightarrow> dtype" where
  "mixed_ints s u =
     (if bits u < bits s then s
      else if bits u < 64 then signed_of_bits (2 * bits u)
      else float64)"

text \<open>\<^verbatim>\<open>numpy.result_type\<close> of two arrays: the dtype their element-wise result has.\<close>

definition result_type :: "dtype \<Rightarrow> dtype \<Rightarrow> dtype" where
  "result_type a b =
     (if kind_of a = FloatK \<or> kind_of b = FloatK
      then float_of_bits (max (bits (min_float a)) (bits (min_float b)))
      else if kind_of a = SignedK \<and> kind_of b = SignedK
      then signed_of_bits (max (bits a) (bits b))
      else if kind_of a = UnsignedK \<and> kind_of b = UnsignedK
      then unsigned_of_bits (max (bits a) (bits b))
      else if kind_of a = SignedK then mixed_ints a b
      else mixed_ints b a)"

text \<open>
  Casting a cell of an array of dtype \<open>src\<close> to dtype \<open>dst\<close>, as an operation does to an
  operand that has not the dtype of the result.
\<close>

definition cast :: "dtype \<Rightarrow> dtype \<Rightarrow> cell \<Rightarrow> cell" where
  "cast src dst c =
     (if src = dst then c else case c of Val x \<Rightarrow> store dst x | other \<Rightarrow> other)"

subsection \<open>Element-wise operations of \<^verbatim>\<open>numpy.ma\<close>\<close>

fun is_negative :: "cell \<Rightarrow> bool" where
  "is_negative (Val x) = (x < 0)"
| "is_negative NegInf = True"
| "is_negative c = False"

fun is_finite :: "cell \<Rightarrow> bool" where
  "is_finite (Val x) = True"
| "is_finite c = False"

text \<open>
  A binary operation on masked cells: the result is masked when either operand is.
  Otherwise the data are multiplied or added in the dtype of the result: two finite
  numbers give what the dtype stores for the exact result; NaN gives NaN; an infinity
  times zero, and the sum of the two infinities, are NaN; any other product or sum with an
  infinity is an infinity. Neither operation masks a non-finite result.
\<close>

fun cell_mul :: "dtype \<Rightarrow> cell \<Rightarrow> cell \<Rightarrow> cell" where
  "cell_mul d Masked b = Masked"
| "cell_mul d a Masked = Masked"
| "cell_mul d (Val x) (Val y) = store d (x * y)"
| "cell_mul d NaN b = NaN"
| "cell_mul d a NaN = NaN"
| "cell_mul d a b =
     (if a = Val 0 \<or> b = Val 0 then NaN
      else if is_negative a = is_negative b then PosInf else NegInf)"

fun cell_add :: "dtype \<Rightarrow> cell \<Rightarrow> cell \<Rightarrow> cell" where
  "cell_add d Masked b = Masked"
| "cell_add d a Masked = Masked"
| "cell_add d (Val x) (Val y) = store d (x + y)"
| "cell_add d NaN b = NaN"
| "cell_add d a NaN = NaN"
| "cell_add d PosInf NegInf = NaN"
| "cell_add d NegInf PosInf = NaN"
| "cell_add d PosInf b = PosInf"
| "cell_add d a PosInf = PosInf"
| "cell_add d NegInf b = NegInf"
| "cell_add d a NegInf = NegInf"

text \<open>The square root of the data, in a floating-point dtype.\<close>

fun f_sqrt :: "dtype \<Rightarrow> cell \<Rightarrow> cell" where
  "f_sqrt d (Val x) = (if x < 0 then NaN else round_to d (sqrt x))"
| "f_sqrt d PosInf = PosInf"
| "f_sqrt d c = NaN"

text \<open>
  \<^verbatim>\<open>np.ma.sqrt\<close> is a masked unary operation with the domain \<open>x \<ge> 0\<close>: it takes the square
  root of the data, and masks the result where it is not finite, where the data are
  outside the domain, and where the input was masked already.
\<close>

definition cell_sqrt :: "dtype \<Rightarrow> cell \<Rightarrow> cell" where
  "cell_sqrt d c =
     (if c = Masked then Masked
      else if \<not> is_finite (f_sqrt d c) \<or> is_negative c then Masked
      else f_sqrt d c)"

definition binop :: "(dtype \<Rightarrow> cell \<Rightarrow> cell \<Rightarrow> cell) \<Rightarrow> marray \<Rightarrow> marray \<Rightarrow> pyerr + marray" where
  "binop f a b =
     (case broadcast_shapes (shape a) (shape b) of
        None \<Rightarrow> Inl ValueError
      | Some s \<Rightarrow>
          (let d = result_type (dtype a) (dtype b)
           in Inr \<lparr>dtype = d, shape = s,
                    elems = map (\<lambda>idx. f d (cast (dtype a) d (item a (bcast_index (shape a) idx)))
                                            (cast (dtype b) d (item b (bcast_index (shape b) idx))))
                                (indices s)\<rparr>))"

definition ma_multiply :: "marray \<Rightarrow> marray \<Rightarrow> pyerr + marray" where
  "ma_multiply = binop cell_mul"

definition ma_add :: "marray \<Rightarrow> marray \<Rightarrow> pyerr + marray" where
  "ma_add = binop cell_add"

text \<open>The square root of an integer array is taken in the floating-point dtype it casts to.\<close>

definition ma_sqrt :: "marray \<Rightarrow> marray" where
  "ma_sqrt a =
     (let d = min_float (dtype a)
      in \<lparr>dtype = d, shape = shape a,
           elems = map (\<lambda>c. cell_sqrt d (cast (dtype a) d c)) (elems a)\<rparr>)"

text \<open>
  Line 144 of the notebook, in Python's evaluation order: the two products, their sum, the
  square root. An exception of the numeric layer is not caught.
\<close>

definition magnitude :: "marray \<Rightarrow> marray \<Rightarrow> pyerr + marray" where
  "magnitude u v =
     (case ma_multiply u u of
        Inl e \<Rightarrow> Inl e
      | Inr uu \<Rightarrow>
          (case ma_multiply v v of
             Inl e \<Rightarrow> Inl e
           | Inr vv \<Rightarrow>
               (case ma_add uu vv of
                  Inl e \<Rightarrow> Inl e
                | Inr ss \<Rightarrow> Inr (ma_sqrt ss))))"

text \<open>
  What line 144 does to one pair of cells, the first from an array of dtype \<open>du\<close> and the
  second from an array of dtype \<open>dv\<close>.
\<close>

definition cell_magnitude :: "dtype \<Rightarrow> dtype \<Rightarrow> cell \<Rightarrow> cell \<Rightarrow> cell" where
  "cell_magnitude du dv c e =
     (let d = result_type du dv
      in cell_sqrt (min_float d)
           (cast d (min_float d)
              (cell_add d (cast du d (cell_mul du c c)) (cast dv d (cell_mul dv e e)))))"




text \<open>A finite number is a number of the dtype when storing it leaves it as it is.\<close>

definition fits :: "dtype \<Rightarrow> real \<Rightarrow> bool" where
  "fits d x = (store d x = Val x)"



text \<open>
  \<^verbatim>\<open>a[k]\<close> for an integer \<open>k \<ge> 0\<close>: the slice of the array at position \<open>k\<close> of its first
  axis. numpy raises IndexError when the first axis has no such position, and when the
  array has no axis at all.
\<close>

definition take_step :: "marray \<Rightarrow> nat \<Rightarrow> pyerr + marray" where
  "take_step a k =
     (case shape a of
        [] \<Rightarrow> Inl IndexError
      | n # rest \<Rightarrow>
          if k < n
          then Inr \<lparr>dtype = dtype a, shape = rest,
                    elems = take (prod_list rest) (drop (k * prod_list rest) (elems a))\<rparr>
          else Inl IndexError)"


section \<open>Fields, files and the state of the notebook\<close>

type_synonym axis = "real list"

text \<open>
  Modelled from the spec: the class \<^verbatim>\<open>NCVAR\<close> of \<^verbatim>\<open>ipart.utils.funcs\<close>, which is not
  part of the notebook. A Field bundles a data array, an identifier, its coordinate axes,
  ordered (time, latitude, longitude), and a mapping of descriptive attributes. The axis
  list is held by reference: \<open>axislist\<close> is the address of an axis-list object in the heap
  of the state, so that two Fields can share one object. The attribute dictionary is kept
  in insertion order.
\<close>

record NCVAR =
  data :: marray
  var_id :: string
  axislist :: nat
  attributes :: "(string \<times> string) list"

text \<open>
  Modelled from the spec: a self-describing gridded-data file. It maps a variable
  identifier to the variable's data, its coordinate axes and its attributes.
\<close>

record ncvariable =
  nc_data :: marray
  nc_axes :: "axis list"
  nc_attrs :: "(string \<times> string) list"

type_synonym ncfile = "string \<rightharpoonup> ncvariable"

text \<open>What the notebook does to the world, in the order it does it.\<close>

datatype event =
    Exists string
  | Open string
  | Write string
  | PrintInfo string
  | PrintAxis axis
  | Panel string real marray axis axis
  | Show

text \<open>
  The state: the file system, the heap of axis-list objects with the next free address,
  the notebook's global variables \<^verbatim>\<open>uflux\<close>, \<^verbatim>\<open>vflux\<close> and \<^verbatim>\<open>ivt\<close> (\<open>None\<close> while unbound),
  and the log of events. The banner lines the notebook prints are not logged.
\<close>

record nb_state =
  files :: "string \<rightharpoonup> ncfile"
  heap :: "nat \<Rightarrow> axis list"
  next_ref :: nat
  uflux :: "NCVAR option"
  vflux :: "NCVAR option"
  ivt :: "NCVAR option"
  events :: "event list"

text \<open>A cell either raises, leaving the state it had reached, or continues.\<close>

type_synonym outcome = "(pyerr \<times> nb_state) + nb_state"

definition then_cell :: "outcome \<Rightarrow> (nb_state \<Rightarrow> outcome) \<Rightarrow> outcome" where
  "then_cell r f = (case r of Inl e \<Rightarrow> Inl e | Inr s \<Rightarrow> f s)"

definition state_of :: "outcome \<Rightarrow> nb_state" where
  "state_of r = (case r of Inl (e, s) \<Rightarrow> s | Inr s \<Rightarrow> s)"

definition emit :: "event \<Rightarrow> nb_state \<Rightarrow> nb_state" where
  "emit e s = s\<lparr>events := events s @ [e]\<rparr>"

subsection \<open>The first code cell: paths and existence checks\<close>

text \<open>The three paths are \<^verbatim>\<open>os.path.join('.', name)\<close>, here with the POSIX separator.\<close>

definition UFLUX_FILE :: string where
  "UFLUX_FILE = ''./uflux_s_6_1984_Jan.nc''"

definition VFLUX_FILE :: string where
  "VFLUX_FILE = ''./vflux_s_6_1984_Jan.nc''"

definition OUTPUTFILE :: string where
  "OUTPUTFILE = ''./ivt_s_6_1984_Jan.nc''"

definition UFLUX_MESSAGE :: string where
  "UFLUX_MESSAGE = ''UFLUX_FILE not found. Please make sure you downloaded the data file and save to the same dir as the notebook file.''"

definition VFLUX_MESSAGE :: string where
  "VFLUX_MESSAGE = ''VFLUX_FILE not found. Please make sure you downloaded the data file and save to the same dir as the notebook file.''"

definition path_exists :: "string \<Rightarrow> nb_state \<Rightarrow> bool \<times> nb_state" where
  "path_exists p s = (files s p \<noteq> None, emit (Exists p) s)"

definition locate_inputs :: "nb_state \<Rightarrow> outcome" where
  "locate_inputs s =
     (case path_exists UFLUX_FILE s of
        (found_u, s1) \<Rightarrow>
          if \<not> found_u then Inl (Exception UFLUX_MESSAGE, s1)
          else
            (case path_exists VFLUX_FILE s1 of
               (found_v, s2) \<Rightarrow>
                 if \<not> found_v then Inl (Exception VFLUX_MESSAGE, s2) else Inr s2))"

subsection \<open>Reading and the diagnostic cells\<close>

text \<open>
  Modelled from the spec: \<^verbatim>\<open>funcs.readNC\<close>, which is not part of the notebook. It opens the
  file, locates the named variable and returns a Field with the variable's data, axes and
  attributes; a variable that is not in the file is a fatal error naming it. The axes
  become a new axis-list object. Opening a path that does not exist raises
  FileNotFoundError, as opening a file does in Python.
\<close>

definition readNC :: "string \<Rightarrow> string \<Rightarrow> nb_state \<Rightarrow> (pyerr \<times> nb_state) + (NCVAR \<times> nb_state)" where
  "readNC path varid s =
     (let s1 = emit (Open path) s in
      case files s path of
        None \<Rightarrow> Inl (FileNotFoundError path, s1)
      | Some f \<Rightarrow>
          (case f varid of
             None \<Rightarrow> Inl (VariableNotFound varid, s1)
           | Some var \<Rightarrow>
               Inr (\<lparr>data = nc_data var, var_id = varid, axislist = next_ref s1,
                      attributes = nc_attrs var\<rparr>,
                    s1\<lparr>heap := (heap s1)(next_ref s1 := nc_axes var),
                       next_ref := Suc (next_ref s1)\<rparr>)))"

text \<open>
  Modelled from the spec: the read-only accessors \<^verbatim>\<open>getTime\<close>, \<^verbatim>\<open>getLatitude\<close> and
  \<^verbatim>\<open>getLongitude\<close> of a Field. The axes are ordered (time, latitude, longitude); a Field
  that lacks the axis has nothing to return, which is an error.
\<close>

definition get_axis :: "nat \<Rightarrow> NCVAR \<Rightarrow> nb_state \<Rightarrow> pyerr + axis" where
  "get_axis k f s =
     (let axes = heap s (axislist f)
      in if k < length axes then Inr (axes ! k) else Inl AxisNotFound)"

definition getTime :: "NCVAR \<Rightarrow> nb_state \<Rightarrow> pyerr + axis" where
  "getTime = get_axis 0"

definition getLatitude :: "NCVAR \<Rightarrow> nb_state \<Rightarrow> pyerr + axis" where
  "getLatitude = get_axis 1"

definition getLongitude :: "NCVAR \<Rightarrow> nb_state \<Rightarrow> pyerr + axis" where
  "getLongitude = get_axis 2"

text \<open>The second code cell: both reads, then the summary of \<^verbatim>\<open>uflux\<close> is printed.\<close>

definition load_fields :: "nb_state \<Rightarrow> outcome" where
  "load_fields s =
     (case readNC UFLUX_FILE ''p71.162'' s of
        Inl e \<Rightarrow> Inl e
      | Inr (u, s1) \<Rightarrow>
          (case readNC VFLUX_FILE ''p72.162'' (s1\<lparr>uflux := Some u\<rparr>) of
             Inl e \<Rightarrow> Inl e
           | Inr (v, s2) \<Rightarrow> Inr (emit (PrintInfo (var_id u)) (s2\<lparr>vflux := Some v\<rparr>))))"

text \<open>The cells that print the latitude, longitude and time axes of \<^verbatim>\<open>uflux\<close>.\<close>

definition print_axis :: "(NCVAR \<Rightarrow> nb_state \<Rightarrow> pyerr + axis) \<Rightarrow> nb_state \<Rightarrow> outcome" where
  "print_axis getter s =
     (case uflux s of
        None \<Rightarrow> Inl (NameError, s)
      | Some u \<Rightarrow>
          (case getter u s of
             Inl e \<Rightarrow> Inl (e, s)
           | Inr ax \<Rightarrow> Inr (emit (PrintAxis ax) s)))"

text \<open>The cell that prints the summary of \<^verbatim>\<open>vflux\<close>.\<close>

definition print_vflux_info :: "nb_state \<Rightarrow> outcome" where
  "print_vflux_info s =
     (case vflux s of
        None \<Rightarrow> Inl (NameError, s)
      | Some v \<Rightarrow> Inr (emit (PrintInfo (var_id v)) s))"

subsection \<open>The last code cell: compute, save, plot\<close>

text \<open>
  Modelled from the spec: the attributes of a Field are readable as attributes of the
  object, which is what \<^verbatim>\<open>getattr(f, name, default)\<close> looks up; an attribute the Field
  does not have gives the default.
\<close>

definition getattr :: "NCVAR \<Rightarrow> string \<Rightarrow> string \<Rightarrow> string" where
  "getattr f name dflt = (case map_of (attributes f) name of None \<Rightarrow> dflt | Some x \<Rightarrow> x)"

text \<open>
  Lines 144 to 148. The name \<^verbatim>\<open>ivt\<close> is bound to the array first and then to the new
  Field, which is given the axis list of \<^verbatim>\<open>uflux\<close> itself and a new dictionary.
\<close>

definition compute_ivt :: "nb_state \<Rightarrow> outcome" where
  "compute_ivt s =
     (case uflux s of
        None \<Rightarrow> Inl (NameError, s)
      | Some u \<Rightarrow>
          (case vflux s of
             None \<Rightarrow> Inl (NameError, s)
           | Some v \<Rightarrow>
               (case magnitude (data u) (data v) of
                  Inl e \<Rightarrow> Inl (e, s)
                | Inr m \<Rightarrow>
                    Inr (s\<lparr>ivt := Some
                      \<lparr>data = m, var_id = ''ivt'', axislist = axislist u,
                       attributes =
                         [(''name'', ''ivt''),
                          (''long_name'', ''integrated vapor transport (IVT)''),
                          (''standard_name'', ''integrated_vapor_transport''),
                          (''title'', ''integrated vapor transport (IVT)''),
                          (''units'', getattr u ''units'' [])]\<rparr>\<rparr>))))"

text \<open>
  Modelled from the spec: \<^verbatim>\<open>funcs.saveNC\<close>, which is not part of the notebook. It
  serialises the Field's data, axes and attributes to a new file that holds this one
  variable, overwriting any file at that path.
\<close>

definition saveNC :: "string \<Rightarrow> NCVAR \<Rightarrow> nb_state \<Rightarrow> nb_state" where
  "saveNC path f s =
     emit (Write path)
       (s\<lparr>files := (files s)(path \<mapsto>
            [var_id f \<mapsto> \<lparr>nc_data = data f, nc_axes = heap s (axislist f),
                            nc_attrs = attributes f\<rparr>])\<rparr>)"

definition save_output :: "nb_state \<Rightarrow> outcome" where
  "save_output s =
     (case ivt s of
        None \<Rightarrow> Inl (NameError, s)
      | Some f \<Rightarrow> Inr (saveNC OUTPUTFILE f s))"

definition idx :: nat where
  "idx = 100"

text \<open>
  Modelled from the spec: \<^verbatim>\<open>plot.Isofill\<close> and \<^verbatim>\<open>plot.plot2\<close>, which are not part of the
  notebook, render one filled-contour map and change none of their arguments. The loop
  of lines 167 to 175 draws one panel per field; a panel is logged with its title, the
  time stamp, the slice and the longitude and latitude axes of \<^verbatim>\<open>uflux\<close>, which the loop
  fetches anew for each panel.
\<close>

fun plot_panels :: "NCVAR \<Rightarrow> real \<Rightarrow> (string \<times> marray) list \<Rightarrow> nb_state \<Rightarrow> outcome" where
  "plot_panels u time_str [] s = Inr s"
| "plot_panels u time_str ((title, vii) # rest) s =
     (case getLongitude u s of
        Inl e \<Rightarrow> Inl (e, s)
      | Inr lon \<Rightarrow>
          (case getLatitude u s of
             Inl e \<Rightarrow> Inl (e, s)
           | Inr lat \<Rightarrow> plot_panels u time_str rest (emit (Panel title time_str vii lon lat) s)))"

text \<open>Lines 160 to 177.\<close>

definition plot_fields :: "nb_state \<Rightarrow> outcome" where
  "plot_fields s =
     (case uflux s of
        None \<Rightarrow> Inl (NameError, s)
      | Some u \<Rightarrow>
     (case getTime u s of
        Inl e \<Rightarrow> Inl (e, s)
      | Inr taxis \<Rightarrow>
     if \<not> idx < length taxis then Inl (IndexError, s)
     else
     (case take_step (data u) idx of
        Inl e \<Rightarrow> Inl (e, s)
      | Inr pu \<Rightarrow>
     (case vflux s of
        None \<Rightarrow> Inl (NameError, s)
      | Some v \<Rightarrow>
     (case take_step (data v) idx of
        Inl e \<Rightarrow> Inl (e, s)
      | Inr pv \<Rightarrow>
     (case ivt s of
        None \<Rightarrow> Inl (NameError, s)
      | Some w \<Rightarrow>
     (case take_step (data w) idx of
        Inl e \<Rightarrow> Inl (e, s)
      | Inr pw \<Rightarrow>
     (case plot_panels u (taxis ! idx) [(''U'', pu), (''V'', pv), (''IVT'', pw)] s of
        Inl e \<Rightarrow> Inl e
      | Inr s1 \<Rightarrow> Inr (emit Show s1)))))))))"

subsection \<open>The notebook, its cells executed in sequence\<close>

definition run_all :: "nb_state \<Rightarrow> outcome" where
  "run_all s =
     foldl then_cell (locate_inputs s)
       [load_fields, print_axis getLatitude, print_axis getLongitude, print_axis getTime,
        print_vflux_info, compute_ivt, save_output, plot_fields]"

section \<open>Example inputs\<close>

text \<open>The scenario of the specification: u = 3 and v = 4 on a grid of one cell.\<close>

definition ex_u_data :: marray where
  "ex_u_data = \<lparr>dtype = float64, shape = [1, 1, 1], elems = [Val 3]\<rparr>"

definition ex_v_data :: marray where
  "ex_v_data = \<lparr>dtype = float64, shape = [1, 1, 1], elems = [Val 4]\<rparr>"

definition ex_ivt_data :: marray where
  "ex_ivt_data = \<lparr>dtype = float64, shape = [1, 1, 1], elems = [Val 5]\<rparr>"

definition ex_axes :: "axis list" where
  "ex_axes = [[0], [10], [20]]"

definition ex_u_file :: ncfile where
  "ex_u_file = [''p71.162'' \<mapsto>
     \<lparr>nc_data = ex_u_data, nc_axes = ex_axes, nc_attrs = [(''units'', ''kg m**-1 s**-1'')]\<rparr>]"

definition ex_v_file :: ncfile where
  "ex_v_file = [''p72.162'' \<mapsto>
     \<lparr>nc_data = ex_v_data, nc_axes = ex_axes, nc_attrs = [(''units'', ''kg m**-1 s**-1'')]\<rparr>]"

definition ex_ivt_attrs :: "(string \<times> string) list" where
  "ex_ivt_attrs =
     [(''name'', ''ivt''),
      (''long_name'', ''integrated vapor transport (IVT)''),
      (''standard_name'', ''integrated_vapor_transport''),
      (''title'', ''integrated vapor transport (IVT)''),
      (''units'', ''kg m**-1 s**-1'')]"

text \<open>A fresh notebook in a directory that holds the given files.\<close>

definition fresh :: "(string \<rightharpoonup> ncfile) \<Rightarrow> nb_state" where
  "fresh fs = \<lparr>files = fs, heap = (\<lambda>r. []), next_ref = 0, uflux = None, vflux = None,
               ivt = None, events = []\<rparr>"

definition ex_state :: nb_state where
  "ex_state = fresh [UFLUX_FILE \<mapsto> ex_u_file, VFLUX_FILE \<mapsto> ex_v_file]"

text \<open>Two fields that are bound already, with axis lists of their own.\<close>

definition ex_u :: NCVAR where
  "ex_u = \<lparr>data = ex_u_data, var_id = ''p71.162'', axislist = 0,
           attributes = [(''units'', ''kg m**-1 s**-1'')]\<rparr>"

definition ex_v :: NCVAR where
  "ex_v = \<lparr>data = ex_v_data, var_id = ''p72.162'', axislist = 1, attributes = []\<rparr>"

definition ex_loaded :: nb_state where
  "ex_loaded = \<lparr>files = Map.empty, heap = (\<lambda>r. [])(0 := ex_axes, 1 := [[1], [11], [21]]),
                 next_ref = 2, uflux = Some ex_u, vflux = Some ex_v, ivt = None, events = []\<rparr>"

text \<open>Two time steps of u against a single time step of v: unequal shapes.\<close>

definition ex_u2_data :: marray where
  "ex_u2_data = \<lparr>dtype = float64, shape = [2, 1, 1], elems = [Val 3, Val 0]\<rparr>"

definition ex_ivt2_data :: marray where
  "ex_ivt2_data = \<lparr>dtype = float64, shape = [2, 1, 1], elems = [Val 5, Val 4]\<rparr>"

text \<open>Shapes that do not broadcast: two time steps against three.\<close>

definition ex_v3_data :: marray where
  "ex_v3_data = \<lparr>dtype = float64, shape = [3, 1, 1], elems = [Val 4, Val 4, Val 4]\<rparr>"

text \<open>A field with a masked cell.\<close>

definition ex_masked_data :: marray where
  "ex_masked_data = \<lparr>dtype = float64, shape = [2, 1, 1], elems = [Val 3, Masked]\<rparr>"

text \<open>The same two time steps of u against two time steps of v.\<close>

definition ex_v2_data :: marray where
  "ex_v2_data = \<lparr>dtype = float64, shape = [2, 1, 1], elems = [Val 4, Val 4]\<rparr>"

text \<open>A field with a negative value and a masked cell.\<close>

definition ex_neg_data :: marray where
  "ex_neg_data = \<lparr>dtype = float64, shape = [2, 1, 1], elems = [Val (- 3), Masked]\<rparr>"

text \<open>A state whose two fields have shapes that do not broadcast.\<close>

definition ex_mismatch :: nb_state where
  "ex_mismatch = ex_loaded\<lparr>uflux := Some (ex_u\<lparr>data := ex_u2_data\<rparr>),
                           vflux := Some (ex_v\<lparr>data := ex_v3_data\<rparr>)\<rparr>"

text \<open>A state whose first field has no units attribute.\<close>

definition ex_no_units :: nb_state where
  "ex_no_units = ex_loaded\<lparr>uflux := Some (ex_u\<lparr>attributes := []\<rparr>)\<rparr>"

text \<open>Fields of 101 time steps, bound already, with the derived field in place.\<close>

definition ex_long_data :: marray where
  "ex_long_data = \<lparr>dtype = float64, shape = [101, 1, 1], elems = replicate 101 (Val 1)\<rparr>"

definition ex_long_field :: NCVAR where
  "ex_long_field = \<lparr>data = ex_long_data, var_id = ''p71.162'', axislist = 0, attributes = []\<rparr>"

definition ex_long :: nb_state where
  "ex_long = \<lparr>files = Map.empty, heap = (\<lambda>r. [])(0 := [map real [0..<101], [10], [20]]),
               next_ref = 1, uflux = Some ex_long_field, vflux = Some ex_long_field,
               ivt = Some ex_long_field, events = []\<rparr>"

text \<open>The bound fields of the one-cell scenario with the derived field in place.\<close>

definition ex_short :: nb_state where
  "ex_short = ex_loaded\<lparr>ivt := Some \<lparr>data = ex_ivt_data, var_id = ''ivt'', axislist = 0,
                                      attributes = ex_ivt_attrs\<rparr>\<rparr>"

text \<open>A value whose square overflows, and one whose square underflows to zero.\<close>

definition ex_big_data :: marray where
  "ex_big_data = \<lparr>dtype = float64, shape = [1, 1, 1], elems = [Val (2 powr 512)]\<rparr>"


section \<open>Properties of the state\<close>

text \<open>The two states hold the same three fields and the same axis-list objects.\<close>

definition same_fields :: "nb_state \<Rightarrow> nb_state \<Rightarrow> bool" where
  "same_fields s s' =
     (uflux s' = uflux s \<and> vflux s' = vflux s \<and> ivt s' = ivt s \<and> heap s' = heap s)"

section \<open>Lemmas on rounding\<close>

lemma rne_int [simp]: "rne (of_int n) = n"
  by (simp add: rne_def)

lemma rne_error: "\<bar>of_int (rne r) - r\<bar> \<le> 1 / 2"
  unfolding rne_def Let_def by (auto; linarith)


lemma rne_mono_lower: "of_int n \<le> r \<Longrightarrow> n \<le> rne r"
  using rne_error [of r] by linarith

lemma rne_mono_upper: "r \<le> of_int n \<Longrightarrow> rne r \<le> n"
  using rne_error [of r] by linarith


lemma ulp_pos: "0 < ulp p emin x"
  by (simp add: ulp_def)

lemma floor_log_bounds:
  assumes "x \<noteq> 0"
  shows "2 powr of_int \<lfloor>log 2 \<bar>x\<bar>\<rfloor> \<le> \<bar>x\<bar>" and "\<bar>x\<bar> < 2 powr (of_int \<lfloor>log 2 \<bar>x\<bar>\<rfloor> + 1)"
  using floor_log_eq_powr_iff [of "\<bar>x\<bar>" 2 "\<lfloor>log 2 \<bar>x\<bar>\<rfloor>"] assms by simp_all


lemma expo_normal:
  assumes "2 powr of_int emin \<le> \<bar>x\<bar>"
  shows "expo emin x = \<lfloor>log 2 \<bar>x\<bar>\<rfloor>" and "2 powr of_int (expo emin x) \<le> \<bar>x\<bar>"
proof -
  have "0 < 2 powr real_of_int emin" by simp
  then have x: "x \<noteq> 0" using assms by auto
  have "of_int emin \<le> log 2 \<bar>x\<bar>"
    using assms x by (simp add: le_log_iff)
  then have "emin \<le> \<lfloor>log 2 \<bar>x\<bar>\<rfloor>" by (simp add: le_floor_iff)
  then show e: "expo emin x = \<lfloor>log 2 \<bar>x\<bar>\<rfloor>" by (simp add: expo_def)
  show "2 powr of_int (expo emin x) \<le> \<bar>x\<bar>"
    unfolding e using floor_log_bounds(1) [OF x] .
qed


lemma rnd_error: "\<bar>rnd_real p emin x - x\<bar> \<le> ulp p emin x / 2"
proof -
  let ?w = "ulp p emin x"
  have w: "0 < ?w" by (rule ulp_pos)
  have "\<bar>of_int (rne (x / ?w)) - x / ?w\<bar> \<le> 1 / 2" by (rule rne_error)
  then have "\<bar>of_int (rne (x / ?w)) - x / ?w\<bar> * ?w \<le> 1 / 2 * ?w"
    using w by (intro mult_right_mono) simp_all
  moreover have "\<bar>of_int (rne (x / ?w)) - x / ?w\<bar> * ?w = \<bar>rnd_real p emin x - x\<bar>"
  proof -
    have "\<bar>of_int (rne (x / ?w)) - x / ?w\<bar> * ?w = \<bar>(of_int (rne (x / ?w)) - x / ?w) * ?w\<bar>"
      using w by (simp add: abs_mult)
    also have "(of_int (rne (x / ?w)) - x / ?w) * ?w = rnd_real p emin x - x"
      using w by (simp add: rnd_real_def left_diff_distrib)
    finally show ?thesis .
  qed
  ultimately show ?thesis by simp
qed

lemma rnd_rel_error:
  assumes "2 powr of_int emin \<le> \<bar>x\<bar>"
  shows "\<bar>rnd_real p emin x - x\<bar> \<le> 2 powr (- real p) * \<bar>x\<bar>"
proof -
  have "ulp p emin x / 2 = 2 powr (- real p) * 2 powr of_int (expo emin x)"
    by (simp add: ulp_def powr_diff powr_minus powr_add field_simps)
  also have "\<dots> \<le> 2 powr (- real p) * \<bar>x\<bar>"
    using expo_normal(2) [OF assms] by (intro mult_left_mono) simp_all
  finally show ?thesis using rnd_error [of p emin x] by linarith
qed

lemma rnd_multiple: "x = of_int n * ulp p emin x \<Longrightarrow> rnd_real p emin x = x"
proof -
  assume a: "x = of_int n * ulp p emin x"
  have "x / ulp p emin x = of_int n"
    using ulp_pos [of p emin x] a by (metis nonzero_eq_divide_eq less_irrefl)
  then show ?thesis using a by (simp add: rnd_real_def)
qed

lemma rnd_exact:
  assumes x: "x = of_int m * 2 powr of_int e" and m: "\<bar>m\<bar> < 2 ^ p" and e: "emin - int p + 1 \<le> e"
  shows "rnd_real p emin x = x"
proof (cases "m = 0")
  case True
  then have "x = 0" using x by simp
  then show ?thesis by (simp add: rnd_real_def rne_int [of 0, simplified])
next
  case False
  then have x0: "x \<noteq> 0" using x by simp
  have "\<bar>x\<bar> = of_int \<bar>m\<bar> * 2 powr of_int e" using x by (simp add: abs_mult)
  also have "\<dots> < 2 ^ p * 2 powr of_int e"
    using m by (intro mult_strict_right_mono) (simp_all flip: of_int_less_iff [where 'a = real])
  also have "\<dots> = 2 powr (of_int (int p + e))"
    by (simp add: powr_add powr_realpow)
  finally have lt: "\<bar>x\<bar> < 2 powr (of_int (int p + e))" .
  have "log 2 \<bar>x\<bar> < of_int (int p + e)"
    using lt x0 by (simp add: log_less_iff)
  then have "\<lfloor>log 2 \<bar>x\<bar>\<rfloor> < int p + e" by (simp add: floor_less_iff)
  then have E: "expo emin x \<le> e + int p - 1" using e by (simp add: expo_def)
  define k where "k = nat (e + int p - 1 - expo emin x)"
  have k: "int k = e + int p - 1 - expo emin x" using E by (simp add: k_def)
  have "2 powr of_int e = 2 powr (real k) * ulp p emin x"
  proof -
    have "of_int e = real k + (of_int (expo emin x) - (real p - 1))"
      using arg_cong [OF k, of real_of_int] by simp
    then show ?thesis by (simp add: ulp_def powr_add [symmetric])
  qed
  then have "x = of_int (m * 2 ^ k) * ulp p emin x"
    using x by (simp add: powr_realpow)
  then show ?thesis by (rule rnd_multiple)
qed

lemma rnd_lower: "of_int n * ulp p emin x \<le> x \<Longrightarrow> of_int n * ulp p emin x \<le> rnd_real p emin x"
proof -
  assume a: "of_int n * ulp p emin x \<le> x"
  have w: "0 < ulp p emin x" by (rule ulp_pos)
  then have "of_int n \<le> x / ulp p emin x" using a by (simp add: pos_le_divide_eq)
  then have "n \<le> rne (x / ulp p emin x)" by (rule rne_mono_lower)
  then have "real_of_int n \<le> of_int (rne (x / ulp p emin x))" by simp
  then show ?thesis unfolding rnd_real_def using w by (intro mult_right_mono) simp_all
qed

lemma rnd_upper: "x \<le> of_int n * ulp p emin x \<Longrightarrow> rnd_real p emin x \<le> of_int n * ulp p emin x"
proof -
  assume a: "x \<le> of_int n * ulp p emin x"
  have w: "0 < ulp p emin x" by (rule ulp_pos)
  then have "x / ulp p emin x \<le> of_int n" using a by (simp add: pos_divide_le_eq)
  then have "rne (x / ulp p emin x) \<le> n" by (rule rne_mono_upper)
  then have "real_of_int (rne (x / ulp p emin x)) \<le> of_int n" by simp
  then show ?thesis unfolding rnd_real_def using w by (intro mult_right_mono) simp_all
qed

lemma pow_expo_ulp: "1 \<le> p \<Longrightarrow> 2 powr of_int (expo emin x) = of_int (2 ^ (p - 1)) * ulp p emin x"
proof -
  assume "1 \<le> p"
  then have "real (p - 1) = real p - 1" by simp
  then have "(2::real) ^ (p - 1) = 2 powr (real p - 1)"
    by (metis powr_realpow zero_less_numeral)
  then show ?thesis by (simp add: ulp_def powr_add [symmetric])
qed

lemma rnd_ge_expo:
  assumes "1 \<le> p" and "2 powr of_int (expo emin x) \<le> x"
  shows "2 powr of_int (expo emin x) \<le> rnd_real p emin x"
  using rnd_lower [of "2 ^ (p - 1)" p emin x] assms pow_expo_ulp [OF assms(1), of emin x] by simp


lemma rnd_ge_pow:
  assumes "1 \<le> p" and "emin \<le> k" and "2 powr of_int k \<le> x"
  shows "2 powr of_int k \<le> rnd_real p emin x"
proof -
  have x: "0 < x" using assms(3) by (smt (verit) powr_gt_zero)
  have "(2::real) powr of_int emin \<le> 2 powr of_int k" using assms(2) by simp
  then have n: "2 powr of_int emin \<le> \<bar>x\<bar>" using assms(3) x by linarith
  have "of_int k \<le> log 2 x" using assms(3) x by (simp add: le_log_iff)
  then have "k \<le> \<lfloor>log 2 \<bar>x\<bar>\<rfloor>" using x by (simp add: le_floor_iff)
  then have "k \<le> expo emin x" using expo_normal(1) [OF n] by simp
  then have "(2::real) powr of_int k \<le> 2 powr of_int (expo emin x)" by simp
  also have "\<dots> \<le> rnd_real p emin x"
    using rnd_ge_expo [OF assms(1), of emin x] expo_normal(2) [OF n] x by simp
  finally show ?thesis .
qed


lemma rnd_nonneg: "0 \<le> x \<Longrightarrow> 0 \<le> rnd_real p emin x"
  using rnd_lower [of 0 p emin x] by simp




section \<open>Lemmas on indexing and on the element-wise operations\<close>

lemma concat_blocks:
  "concat (map (\<lambda>i. map (\<lambda>k. i * P + k) [0..<P]) [0..<n]) = [0..<n * P]"
proof (induction n)
  case 0
  show ?case by simp
next
  case (Suc n)
  have "map (\<lambda>k. n * P + k) [0..<P] = [n * P..<n * P + P]"
    using map_add_upt [of "n * P" P] by (simp add: add.commute)
  moreover have "[0..<n * P + P] = [0..<n * P] @ [n * P..<n * P + P]"
    by (rule upt_add_eq_append) simp
  moreover have "concat (map (\<lambda>i. map (\<lambda>k. i * P + k) [0..<P]) [0..<Suc n])
      = concat (map (\<lambda>i. map (\<lambda>k. i * P + k) [0..<P]) [0..<n]) @ map (\<lambda>k. n * P + k) [0..<P]"
    by simp
  ultimately have "concat (map (\<lambda>i. map (\<lambda>k. i * P + k) [0..<P]) [0..<Suc n]) = [0..<n * P + P]"
    using Suc.IH by (simp only:)
  then show ?case by (simp add: add.commute)
qed

text \<open>The row-major enumeration visits the buffer positions in order, each once.\<close>

lemma map_offset_indices: "map (offset s) (indices s) = [0..<prod_list s]"
proof (induction s)
  case Nil
  show ?case by simp
next
  case (Cons n ns)
  have "map (offset (n # ns)) (indices (n # ns))
      = concat (map (\<lambda>i. map (\<lambda>js. i * prod_list ns + offset ns js) (indices ns)) [0..<n])"
    by (simp add: map_concat comp_def)
  also have "\<dots> = concat (map (\<lambda>i. map (\<lambda>k. i * prod_list ns + k) (map (offset ns) (indices ns))) [0..<n])"
    by (simp add: comp_def)
  also have "\<dots> = [0..<n * prod_list ns]"
    by (simp only: Cons.IH concat_blocks)
  finally show ?case by simp
qed

lemma nil_notin_indices: "[] \<notin> set (indices (n # ns))"
  by auto

lemma valid_index_iff: "ix \<in> set (indices s) \<longleftrightarrow> valid_index s ix"
proof (induction s ix rule: valid_index.induct)
  case 1
  show ?case by simp
next
  case (2 n ns i js)
  then show ?case by auto
qed (simp_all add: nil_notin_indices del: indices.simps(2))

lemma offset_less: "valid_index s ix \<Longrightarrow> offset s ix < prod_list s"
proof -
  assume "valid_index s ix"
  then have "ix \<in> set (indices s)" by (simp add: valid_index_iff)
  then have "offset s ix \<in> set (map (offset s) (indices s))" by simp
  then show ?thesis by (simp add: map_offset_indices)
qed

lemma valid_index_length: "valid_index s ix \<Longrightarrow> length ix = length s"
  by (induction s ix rule: valid_index.induct) auto

lemma bcast_index_same: "valid_index s ix \<Longrightarrow> bcast_index s ix = ix"
proof (induction s ix rule: valid_index.induct)
  case 1
  show ?case by (simp add: bcast_index_def)
next
  case (2 n ns i js)
  then show ?case by (auto simp: bcast_index_def valid_index_length)
qed simp_all

lemma broadcast_shapes_same: "broadcast_shapes s s = Some s"
  by (simp add: broadcast_shapes_def pad_shape_def compatible_def list_all_iff
      zip_same_conv_map comp_def Let_def map_idI)

lemma map_nth_pair:
  "length xs = n \<Longrightarrow> length ys = n \<Longrightarrow>
   map (\<lambda>k. f (xs ! k) (ys ! k)) [0..<n] = map (\<lambda>p. f (fst p) (snd p)) (zip xs ys)"
  by (rule nth_equalityI) simp_all

lemma result_type_same: "result_type d d = d"
  by (cases d)
     (simp_all add: result_type_def min_float_def float_of_bits_def signed_of_bits_def
        unsigned_of_bits_def)

lemma result_type_commute: "result_type a b = result_type b a"
  by (cases "kind_of a"; cases "kind_of b") (simp_all add: result_type_def max.commute)

lemma cast_same: "cast d d c = c"
  by (simp add: cast_def)

lemma cast_Masked: "cast src dst Masked = Masked"
  by (simp add: cast_def)

lemma cell_mul_Masked: "cell_mul d Masked c = Masked" "cell_mul d c Masked = Masked"
  by (cases c; simp)+

lemma cell_add_Masked: "cell_add d Masked c = Masked" "cell_add d c Masked = Masked"
  by (cases c; simp)+

lemma cell_add_commute: "cell_add d x y = cell_add d y x"
  by (cases x; cases y) (simp_all add: add.commute)

lemma binop_same_shape_total:
  "shape b = shape a \<Longrightarrow>
   binop f a b =
     Inr \<lparr>dtype = result_type (dtype a) (dtype b), shape = shape a,
          elems = map (\<lambda>ix. f (result_type (dtype a) (dtype b))
                               (cast (dtype a) (result_type (dtype a) (dtype b))
                                  (item a (bcast_index (shape a) ix)))
                               (cast (dtype b) (result_type (dtype a) (dtype b))
                                  (item b (bcast_index (shape a) ix))))
                      (indices (shape a))\<rparr>"
  by (simp add: binop_def broadcast_shapes_same Let_def)

text \<open>On two arrays of one shape a binary operation pairs the buffers cell by cell.\<close>

lemma binop_same_shape:
  assumes "wf_marray a" and "wf_marray b" and "shape b = shape a"
  shows "binop f a b =
           Inr \<lparr>dtype = result_type (dtype a) (dtype b), shape = shape a,
                elems = map (\<lambda>p. f (result_type (dtype a) (dtype b))
                                     (cast (dtype a) (result_type (dtype a) (dtype b)) (fst p))
                                     (cast (dtype b) (result_type (dtype a) (dtype b)) (snd p)))
                            (zip (elems a) (elems b))\<rparr>"
proof -
  let ?s = "shape a"
  let ?d = "result_type (dtype a) (dtype b)"
  let ?g = "\<lambda>x y. f ?d (cast (dtype a) ?d x) (cast (dtype b) ?d y)"
  have "map (\<lambda>ix. ?g (item a (bcast_index ?s ix)) (item b (bcast_index ?s ix))) (indices ?s)
      = map (\<lambda>ix. ?g (elems a ! offset ?s ix) (elems b ! offset ?s ix)) (indices ?s)"
    by (rule map_cong) (simp_all add: valid_index_iff bcast_index_same item_def assms(3))
  also have "\<dots> = map (\<lambda>k. ?g (elems a ! k) (elems b ! k)) (map (offset ?s) (indices ?s))"
    by (simp add: comp_def)
  also have "\<dots> = map (\<lambda>k. ?g (elems a ! k) (elems b ! k)) [0..<prod_list ?s]"
    by (simp only: map_offset_indices)
  also have "\<dots> = map (\<lambda>p. ?g (fst p) (snd p)) (zip (elems a) (elems b))"
    using assms by (intro map_nth_pair) (simp_all add: wf_marray_def)
  finally show ?thesis
    by (simp add: binop_same_shape_total assms(3))
qed

lemma magnitude_same_shape:
  assumes "wf_marray u" and "wf_marray v" and "shape v = shape u"
  shows "magnitude u v =
           Inr \<lparr>dtype = min_float (result_type (dtype u) (dtype v)), shape = shape u,
                elems = map (\<lambda>p. cell_magnitude (dtype u) (dtype v) (fst p) (snd p))
                            (zip (elems u) (elems v))\<rparr>"
proof -
  let ?uu = "\<lparr>dtype = dtype u, shape = shape u,
               elems = map (\<lambda>x. cell_mul (dtype u) x x) (elems u)\<rparr>"
  let ?vv = "\<lparr>dtype = dtype v, shape = shape u,
               elems = map (\<lambda>x. cell_mul (dtype v) x x) (elems v)\<rparr>"
  have uu: "ma_multiply u u = Inr ?uu"
    using binop_same_shape [OF assms(1) assms(1) refl, of cell_mul]
    by (simp add: ma_multiply_def zip_same_conv_map comp_def result_type_same cast_same)
  have vv: "ma_multiply v v = Inr ?vv"
    using binop_same_shape [OF assms(2) assms(2) refl, of cell_mul]
    by (simp add: ma_multiply_def zip_same_conv_map comp_def result_type_same cast_same assms(3))
  have wfu: "wf_marray ?uu" using assms(1) by (simp add: wf_marray_def)
  have wfv: "wf_marray ?vv" using assms(2,3) by (simp add: wf_marray_def)
  have "ma_add ?uu ?vv =
          Inr \<lparr>dtype = result_type (dtype u) (dtype v), shape = shape u,
               elems = map (\<lambda>p. cell_add (result_type (dtype u) (dtype v))
                                   (cast (dtype u) (result_type (dtype u) (dtype v)) (fst p))
                                   (cast (dtype v) (result_type (dtype u) (dtype v)) (snd p)))
                  (zip (map (\<lambda>x. cell_mul (dtype u) x x) (elems u))
                       (map (\<lambda>x. cell_mul (dtype v) x x) (elems v)))\<rparr>"
    using binop_same_shape [OF wfu wfv, of cell_add] by (simp add: ma_add_def)
  then show ?thesis
    by (simp add: magnitude_def uu vv ma_sqrt_def zip_map_map comp_def split_def
        cell_magnitude_def Let_def)
qed

lemma item_magnitude:
  assumes "wf_marray u" and "wf_marray v" and "shape v = shape u"
    and "valid_index (shape u) ix" and "magnitude u v = Inr m"
  shows "item m ix = cell_magnitude (dtype u) (dtype v) (item u ix) (item v ix)"
proof -
  have "offset (shape u) ix < prod_list (shape u)"
    using assms(4) by (rule offset_less)
  then have "offset (shape u) ix < length (elems u)" "offset (shape u) ix < length (elems v)"
    using assms(1,2,3) by (simp_all add: wf_marray_def)
  then show ?thesis
    using assms(5) magnitude_same_shape [OF assms(1,2,3)]
    by (auto simp: item_def assms(3))
qed

lemma getitem_magnitude:
  assumes "wf_marray u" and "wf_marray v" and "shape v = shape u"
    and "valid_index (shape u) ix"
  shows "\<exists>m. magnitude u v = Inr m \<and> shape m = shape u \<and>
     getitem m ix = Inr (cell_magnitude (dtype u) (dtype v) (item u ix) (item v ix))"
proof -
  obtain m where m: "magnitude u v = Inr m" and sm: "shape m = shape u"
    using magnitude_same_shape [OF assms(1,2,3)] by simp
  show ?thesis
    using item_magnitude [OF assms m] m sm assms(4) by (simp add: getitem_def)
qed

lemma getitem_InrD: "getitem a ix = Inr c \<Longrightarrow> valid_index (shape a) ix \<and> item a ix = c"
  by (simp add: getitem_def split: if_splits)

lemma cell_sqrt_Masked: "cell_sqrt d Masked = Masked"
  by (simp add: cell_sqrt_def)

lemma masked_cell:
  "c = Masked \<or> e = Masked \<Longrightarrow> cell_magnitude du dv c e = Masked"
  by (auto simp: cell_magnitude_def Let_def cell_mul_Masked cell_add_Masked cast_Masked
      cell_sqrt_Masked)

section \<open>Lemmas on floating-point cells\<close>

lemma rnd_zero: "rnd_real p emin 0 = 0"
  by (simp add: rnd_real_def rne_int [of 0, simplified])

text \<open>Above the underflow range rounding has a relative error of at most \<open>2 powr (- p)\<close>.\<close>

lemma rnd_between:
  assumes "0 \<le> z" and "z = 0 \<or> 2 powr of_int emin \<le> z"
  shows "(1 - 2 powr (- real p)) * z \<le> rnd_real p emin z"
    and "rnd_real p emin z \<le> (1 + 2 powr (- real p)) * z"
proof -
  have "\<bar>rnd_real p emin z - z\<bar> \<le> 2 powr (- real p) * z"
  proof (cases "z = 0")
    case True
    then show ?thesis by (simp add: rnd_zero)
  next
    case False
    then have "2 powr of_int emin \<le> \<bar>z\<bar>" using assms by simp
    then show ?thesis using rnd_rel_error [of emin z p] assms(1) by simp
  qed
  then show "(1 - 2 powr (- real p)) * z \<le> rnd_real p emin z"
    and "rnd_real p emin z \<le> (1 + 2 powr (- real p)) * z"
    by (simp_all add: algebra_simps abs_le_iff)
qed

lemma rnd_normal:
  assumes "1 \<le> p" and "z = 0 \<or> 2 powr of_int emin \<le> z"
  shows "rnd_real p emin z = 0 \<or> 2 powr of_int emin \<le> rnd_real p emin z"
  using assms rnd_ge_pow [of p emin emin z] by (auto simp: rnd_zero)

lemma sqrt_normal:
  assumes "emin \<le> 0" and "z = 0 \<or> 2 powr of_int emin \<le> z"
  shows "sqrt z = 0 \<or> 2 powr of_int emin \<le> sqrt z"
proof (cases "z = 0")
  case True
  then show ?thesis by simp
next
  case False
  then have z: "2 powr of_int emin \<le> z" using assms(2) by simp
  have "real_of_int emin \<le> of_int emin / 2" using assms(1) by simp
  then have "(2::real) powr of_int emin \<le> 2 powr (of_int emin / 2)"
    by (intro powr_mono) simp_all
  also have "\<dots> = sqrt (2 powr of_int emin)" by (simp add: powr_half_sqrt_powr)
  also have "\<dots> \<le> sqrt z" using z by simp
  finally show ?thesis by simp
qed

lemma eps_bounds: "1 \<le> p \<Longrightarrow> 0 < 2 powr (- real p) \<and> 2 powr (- real p) \<le> 1 / 2"
proof -
  assume "1 \<le> p"
  then have "- real p \<le> - 1" by simp
  then have "(2::real) powr (- real p) \<le> 2 powr (- 1)" by (intro powr_mono) simp_all
  then show ?thesis by (simp add: powr_minus)
qed

text \<open>
  The four roundings of line 144 at one cell, when no square underflows: the result is
  within a relative error of \<open>3 * 2 powr (- p)\<close> of the exact magnitude.
\<close>

lemma hypot_error:
  assumes p: "1 \<le> p" and emin: "emin \<le> 0"
    and x: "x = 0 \<or> 2 powr of_int emin \<le> x * x"
    and y: "y = 0 \<or> 2 powr of_int emin \<le> y * y"
  shows "\<bar>rnd_real p emin (sqrt (rnd_real p emin (rnd_real p emin (x * x) + rnd_real p emin (y * y))))
           - sqrt (x * x + y * y)\<bar>
         \<le> 3 * 2 powr (- real p) * sqrt (x * x + y * y)"
proof -
  define eps :: real where "eps = 2 powr (- real p)"
  define a where "a = rnd_real p emin (x * x)"
  define b where "b = rnd_real p emin (y * y)"
  define s where "s = rnd_real p emin (a + b)"
  define q where "q = sqrt s"
  define r where "r = rnd_real p emin q"
  define T where "T = x * x + y * y"
  define R where "R = sqrt T"
  have eps: "0 < eps" "eps \<le> 1 / 2" using eps_bounds [OF p] by (simp_all add: eps_def)
  have xx: "0 \<le> x * x" "x * x = 0 \<or> 2 powr of_int emin \<le> x * x" using x by auto
  have yy: "0 \<le> y * y" "y * y = 0 \<or> 2 powr of_int emin \<le> y * y" using y by auto
  have T0: "0 \<le> T" by (simp add: T_def)
  have R0: "0 \<le> R" by (simp add: R_def T0)
  have a0: "0 \<le> a" unfolding a_def using xx(1) by (rule rnd_nonneg)
  have b0: "0 \<le> b" unfolding b_def using yy(1) by (rule rnd_nonneg)
  have a1: "(1 - eps) * (x * x) \<le> a" "a \<le> (1 + eps) * (x * x)"
    unfolding a_def eps_def using rnd_between [OF xx] by simp_all
  have b1: "(1 - eps) * (y * y) \<le> b" "b \<le> (1 + eps) * (y * y)"
    unfolding b_def eps_def using rnd_between [OF yy] by simp_all
  have ab: "(1 - eps) * T \<le> a + b" "a + b \<le> (1 + eps) * T"
    using a1 b1 by (simp_all add: T_def algebra_simps)
  have an: "a = 0 \<or> 2 powr of_int emin \<le> a" unfolding a_def using p xx(2) by (rule rnd_normal)
  have bn: "b = 0 \<or> 2 powr of_int emin \<le> b" unfolding b_def using p yy(2) by (rule rnd_normal)
  have abn: "a + b = 0 \<or> 2 powr of_int emin \<le> a + b" using an bn a0 b0 by auto
  have ab0: "0 \<le> a + b" using a0 b0 by simp
  have s0: "0 \<le> s" unfolding s_def using ab0 by (rule rnd_nonneg)
  have s1: "(1 - eps) * (a + b) \<le> s" "s \<le> (1 + eps) * (a + b)"
    unfolding s_def eps_def using rnd_between [OF ab0 abn] by simp_all
  have "(1 - eps) * ((1 - eps) * T) \<le> (1 - eps) * (a + b)"
    using ab(1) eps by (intro mult_left_mono) simp_all
  then have slo: "(1 - eps) * (1 - eps) * T \<le> s" using s1(1) by (simp add: mult.assoc)
  have "(1 + eps) * (a + b) \<le> (1 + eps) * ((1 + eps) * T)"
    using ab(2) eps by (intro mult_left_mono) simp_all
  then have shi: "s \<le> (1 + eps) * (1 + eps) * T" using s1(2) by (simp add: mult.assoc)
  have sn: "s = 0 \<or> 2 powr of_int emin \<le> s" unfolding s_def using p abn by (rule rnd_normal)
  have q0: "0 \<le> q" by (simp add: q_def s0)
  have qn: "q = 0 \<or> 2 powr of_int emin \<le> q" unfolding q_def using emin sn by (rule sqrt_normal)
  have "sqrt ((1 - eps) * (1 - eps) * T) \<le> sqrt s" using slo by simp
  then have qlo: "(1 - eps) * R \<le> q"
    using eps by (simp add: q_def R_def real_sqrt_mult)
  have "sqrt s \<le> sqrt ((1 + eps) * (1 + eps) * T)" using shi by simp
  then have qhi: "q \<le> (1 + eps) * R"
    using eps by (simp add: q_def R_def real_sqrt_mult)
  have r1: "(1 - eps) * q \<le> r" "r \<le> (1 + eps) * q"
    unfolding r_def eps_def using rnd_between [OF q0 qn] by simp_all
  have "(1 - eps) * ((1 - eps) * R) \<le> (1 - eps) * q"
    using qlo eps by (intro mult_left_mono) simp_all
  then have rlo: "(1 - eps) * ((1 - eps) * R) \<le> r" using r1(1) by simp
  have "(1 + eps) * q \<le> (1 + eps) * ((1 + eps) * R)"
    using qhi eps by (intro mult_left_mono) simp_all
  then have rhi: "r \<le> (1 + eps) * ((1 + eps) * R)" using r1(2) by simp
  have "eps * (eps * R) \<le> 1 * (eps * R)"
    using eps R0 by (intro mult_right_mono) simp_all
  then have e2: "eps * eps * R \<le> eps * R" by (simp add: mult.assoc)
  have "0 \<le> eps * eps * R" using eps R0 by simp
  then have "\<bar>r - R\<bar> \<le> 3 * eps * R"
    using rlo rhi e2 by (simp add: algebra_simps abs_le_iff)
  then show ?thesis
    by (simp only: r_def q_def s_def a_def b_def R_def T_def eps_def)
qed

lemma rnd_le_pow:
  assumes "1 \<le> p" and "emin \<le> k" and "0 \<le> z" and "z \<le> 2 powr of_int k"
  shows "rnd_real p emin z \<le> 2 powr of_int k"
proof (cases "z = 0")
  case True
  then show ?thesis by (simp add: rnd_zero)
next
  case False
  then have z: "0 < z" using assms(3) by simp
  have "log 2 z \<le> of_int k" using assms(4) z by (simp add: log_le_iff)
  then have "\<lfloor>log 2 \<bar>z\<bar>\<rfloor> \<le> k" using z by (simp add: floor_le_iff)
  then have E: "expo emin z \<le> k" using assms(2) by (simp add: expo_def)
  define j where "j = nat (k - expo emin z + int p - 1)"
  have j: "int j = k - expo emin z + int p - 1" using E assms(1) by (simp add: j_def)
  have "of_int k = real j + (of_int (expo emin z) - (real p - 1))"
    using arg_cong [OF j, of real_of_int] by simp
  then have "2 powr of_int k = 2 powr real j * ulp p emin z"
    by (simp add: ulp_def powr_add [symmetric])
  then have m: "2 powr of_int k = of_int (2 ^ j) * ulp p emin z"
    by (simp add: powr_realpow)
  show ?thesis
    using rnd_upper [of z "2 ^ j" p emin] assms(4) unfolding m by simp
qed

lemma float_params: "1 \<le> fprec d" "11 \<le> fprec d" "femin d \<le> 0" "15 \<le> femax d"
  "femin d - int (fprec d) + 1 \<le> 0"
  by (simp_all add: fprec_def femin_def femax_def)

lemma float_types:
  assumes "kind_of d = FloatK"
  shows "result_type d d = d" and "min_float d = d" and "store d x = round_to d x"
  using assms by (simp_all add: result_type_same min_float_def store_def)

lemma cell_magnitude_float:
  assumes "kind_of d = FloatK"
  shows "cell_magnitude d d c e = cell_sqrt d (cell_add d (cell_mul d c c) (cell_mul d e e))"
  by (simp add: cell_magnitude_def float_types [OF assms] cast_same)

lemma round_to_ValD:
  "round_to d z = Val t \<Longrightarrow>
   t = rnd_real (fprec d) (femin d) z \<and> \<bar>t\<bar> < 2 powr (of_int (femax d) + 1)"
  by (auto simp: round_to_def Let_def split: if_splits)

lemma round_to_ValI:
  "\<bar>rnd_real (fprec d) (femin d) z\<bar> < 2 powr (of_int (femax d) + 1) \<Longrightarrow>
   round_to d z = Val (rnd_real (fprec d) (femin d) z)"
  by (simp add: round_to_def Let_def)

lemma round_to_nonneg:
  assumes "0 \<le> z"
  shows "round_to d z = PosInf \<or>
         (\<exists>t. round_to d z = Val t \<and> 0 \<le> t \<and> t = rnd_real (fprec d) (femin d) z)"
proof -
  have "0 \<le> rnd_real (fprec d) (femin d) z" using assms by (rule rnd_nonneg)
  moreover have "(0::real) < 2 powr (of_int (femax d) + 1)" by simp
  ultimately show ?thesis
    by (auto simp: round_to_def Let_def)
qed


lemma round_to_exact:
  assumes "x = of_int m * 2 powr of_int e" and "\<bar>m\<bar> < 2 ^ fprec d"
    and "femin d - int (fprec d) + 1 \<le> e" and "\<bar>x\<bar> < 2 powr (of_int (femax d) + 1)"
  shows "round_to d x = Val x"
  using rnd_exact [OF assms(1,2,3)] assms(4) by (simp add: round_to_def)

lemma round_to_small_int:
  assumes "\<bar>m\<bar> < 2048"
  shows "round_to d (of_int m) = Val (of_int m)"
proof (rule round_to_exact [where m = m and e = 0])
  show "real_of_int m = of_int m * 2 powr of_int 0" by simp
  have "(2048::int) = 2 ^ 11" by simp
  also have "\<dots> \<le> 2 ^ fprec d" using float_params(2) [of d] by (intro power_increasing) simp_all
  finally show "\<bar>m\<bar> < 2 ^ fprec d" using assms by simp
  show "femin d - int (fprec d) + 1 \<le> 0" by (rule float_params)
  have "real_of_int \<bar>m\<bar> < 2048" using assms by simp
  also have "(2048::real) = 2 powr 11" by simp
  also have "\<dots> \<le> 2 powr (of_int (femax d) + 1)"
    using float_params(4) [of d] by (intro powr_mono) simp_all
  finally show "\<bar>real_of_int m\<bar> < 2 powr (of_int (femax d) + 1)" by simp
qed

lemma round_to_overflow:
  assumes "2 powr (of_int (femax d) + 1) \<le> z"
  shows "round_to d z = PosInf"
proof -
  have "2 powr of_int (femax d + 1) \<le> z" using assms by simp
  moreover have "femin d \<le> femax d + 1" using float_params(3,4) [of d] by simp
  ultimately have "2 powr of_int (femax d + 1) \<le> rnd_real (fprec d) (femin d) z"
    using float_params(1) [of d] by (intro rnd_ge_pow) simp_all
  then have ge: "2 powr (of_int (femax d) + 1) \<le> rnd_real (fprec d) (femin d) z" by simp
  have "(0::real) < 2 powr (of_int (femax d) + 1)" by simp
  then have "0 < rnd_real (fprec d) (femin d) z" using ge by linarith
  then show ?thesis using ge by (simp add: round_to_def Let_def)
qed





text \<open>The cell of line 144 for two finite numbers of a floating-point dtype.\<close>

lemma cell_magnitude_ValD:
  assumes d: "kind_of d = FloatK" and r: "cell_magnitude d d (Val x) (Val y) = Val r"
  shows "r = rnd_real (fprec d) (femin d)
               (sqrt (rnd_real (fprec d) (femin d)
                  (rnd_real (fprec d) (femin d) (x * x) + rnd_real (fprec d) (femin d) (y * y))))"
proof -
  let ?rnd = "rnd_real (fprec d) (femin d)"
  have c: "cell_sqrt d (cell_add d (round_to d (x * x)) (round_to d (y * y))) = Val r"
    using r by (simp add: cell_magnitude_float [OF d] float_types [OF d])
  from round_to_nonneg [of "x * x" d] obtain a
    where a: "round_to d (x * x) = Val a" "0 \<le> a" "a = ?rnd (x * x)"
    using c by (cases "round_to d (y * y)") (auto simp: cell_sqrt_def)
  from round_to_nonneg [of "y * y" d] obtain b
    where b: "round_to d (y * y) = Val b" "0 \<le> b" "b = ?rnd (y * y)"
    using c a by (auto simp: cell_sqrt_def)
  have c2: "cell_sqrt d (round_to d (a + b)) = Val r"
    using c a b by (simp add: float_types [OF d])
  from round_to_nonneg [of "a + b" d] obtain s
    where s: "round_to d (a + b) = Val s" "0 \<le> s" "s = ?rnd (a + b)"
    using c2 a b by (auto simp: cell_sqrt_def)
  have "round_to d (sqrt s) = Val r"
    using c2 s by (auto simp: cell_sqrt_def split: if_splits)
  then have "r = ?rnd (sqrt s)" by (simp add: round_to_ValD)
  then show ?thesis by (simp add: s a b)
qed

lemma cell_magnitude_ValI:
  assumes d: "kind_of d = FloatK"
    and a: "round_to d (x * x) = Val a" and b: "round_to d (y * y) = Val b"
    and s: "round_to d (a + b) = Val s" and r: "round_to d (sqrt s) = Val r"
  shows "cell_magnitude d d (Val x) (Val y) = Val r"
proof -
  have "0 \<le> rnd_real (fprec d) (femin d) (x * x)" "0 \<le> rnd_real (fprec d) (femin d) (y * y)"
    by (simp_all add: rnd_nonneg)
  then have "0 \<le> a + b" using round_to_ValD [OF a] round_to_ValD [OF b] by simp
  then have "0 \<le> rnd_real (fprec d) (femin d) (a + b)" by (rule rnd_nonneg)
  then have "0 \<le> s" using round_to_ValD [OF s] by simp
  then show ?thesis
    by (simp add: cell_magnitude_float [OF d] float_types [OF d] a b s r cell_sqrt_def)
qed

lemma cell_magnitude_overflow:
  assumes d: "kind_of d = FloatK" and x: "2 powr (of_int (femax d) + 1) \<le> x * x"
  shows "cell_magnitude d d (Val x) e = Masked"
proof -
  have "cell_mul d (Val x) (Val x) = PosInf"
    using round_to_overflow [OF x] by (simp add: float_types [OF d])
  moreover have "cell_sqrt d (cell_add d PosInf c) = Masked" for c
    by (cases c) (simp_all add: cell_sqrt_def)
  ultimately show ?thesis by (simp add: cell_magnitude_float [OF d])
qed

lemma cell_magnitude_in_range:
  assumes d: "kind_of d = FloatK" and T: "x * x + y * y \<le> 2 powr of_int (femax d - 1)"
  shows "\<exists>r. cell_magnitude d d (Val x) (Val y) = Val r"
proof -
  let ?rnd = "rnd_real (fprec d) (femin d)"
  let ?k = "femax d - 1"
  have k: "femin d \<le> ?k" "femin d \<le> femax d" using float_params(3,4) [of d] by simp_all
  have p: "1 \<le> fprec d" by (rule float_params)
  have lt: "(2::real) powr of_int (femax d) < 2 powr (of_int (femax d) + 1)" by simp
  have dbl: "(2::real) powr of_int ?k + 2 powr of_int ?k = 2 powr of_int (femax d)"
    by (simp add: powr_diff)
  have xx: "x * x \<le> 2 powr of_int ?k" and yy: "y * y \<le> 2 powr of_int ?k"
    using T zero_le_square [of x] zero_le_square [of y] by linarith+
  have a0: "0 \<le> ?rnd (x * x)" and b0: "0 \<le> ?rnd (y * y)" by (simp_all add: rnd_nonneg)
  have a1: "?rnd (x * x) \<le> 2 powr of_int ?k" using p k(1) _ xx by (rule rnd_le_pow) simp
  have b1: "?rnd (y * y) \<le> 2 powr of_int ?k" using p k(1) _ yy by (rule rnd_le_pow) simp
  have kpos: "(0::real) < 2 powr of_int ?k" by simp
  have a: "round_to d (x * x) = Val (?rnd (x * x))"
    using a0 a1 lt dbl kpos by (intro round_to_ValI) linarith
  have b: "round_to d (y * y) = Val (?rnd (y * y))"
    using b0 b1 lt dbl kpos by (intro round_to_ValI) linarith
  let ?ab = "?rnd (x * x) + ?rnd (y * y)"
  have ab0: "0 \<le> ?ab" using a0 b0 by simp
  have ab1: "?ab \<le> 2 powr of_int (femax d)" using a1 b1 dbl by linarith
  have s0: "0 \<le> ?rnd ?ab" using ab0 by (rule rnd_nonneg)
  have s1: "?rnd ?ab \<le> 2 powr of_int (femax d)" using p k(2) ab0 ab1 by (rule rnd_le_pow)
  have s: "round_to d ?ab = Val (?rnd ?ab)"
    using s0 s1 lt by (intro round_to_ValI) linarith
  have one: "(1::real) \<le> 2 powr of_int (femax d)"
    using float_params(4) [of d] by (simp add: ge_one_powr_ge_zero)
  have q0: "0 \<le> sqrt (?rnd ?ab)" using s0 by simp
  have q1: "sqrt (?rnd ?ab) \<le> 2 powr of_int (femax d)"
  proof (cases "?rnd ?ab \<le> 1")
    case True
    then have "sqrt (?rnd ?ab) \<le> 1" by simp
    then show ?thesis using one by linarith
  next
    case False
    then have "1 \<le> sqrt (?rnd ?ab)" by simp
    then have "sqrt (?rnd ?ab) * 1 \<le> sqrt (?rnd ?ab) * sqrt (?rnd ?ab)"
      using q0 by (intro mult_left_mono) simp_all
    then have "sqrt (?rnd ?ab) \<le> ?rnd ?ab" using s0 by simp
    then show ?thesis using s1 by linarith
  qed
  have r0: "0 \<le> ?rnd (sqrt (?rnd ?ab))" using q0 by (rule rnd_nonneg)
  have r1: "?rnd (sqrt (?rnd ?ab)) \<le> 2 powr of_int (femax d)"
    using p k(2) q0 q1 by (rule rnd_le_pow)
  have r: "round_to d (sqrt (?rnd ?ab)) = Val (?rnd (sqrt (?rnd ?ab)))"
    using r0 r1 lt by (intro round_to_ValI) linarith
  show ?thesis using cell_magnitude_ValI [OF d a b s r] by blast
qed



section \<open>The example inputs evaluated\<close>

lemma float64_params: "kind_of float64 = FloatK" "fprec float64 = 53" "femin float64 = - 1022"
  "femax float64 = 1023"
  by (simp_all add: fprec_def femin_def femax_def)

lemma sqrt25: "sqrt 25 = 5"
  using real_sqrt_abs [of 5] by simp

lemma sqrt16: "sqrt 16 = 4"
  using real_sqrt_abs [of 4] by simp

lemma round_to_numerals:
  "round_to d 0 = Val 0" "round_to d 4 = Val 4" "round_to d 5 = Val 5" "round_to d 9 = Val 9"
  "round_to d 16 = Val 16" "round_to d 25 = Val 25"
  using round_to_small_int [of 0 d] round_to_small_int [of 4 d] round_to_small_int [of 5 d]
    round_to_small_int [of 9 d] round_to_small_int [of 16 d] round_to_small_int [of 25 d]
  by simp_all

lemma cell_magnitude_3_4: "cell_magnitude float64 float64 (Val 3) (Val 4) = Val 5"
  by (rule cell_magnitude_ValI [where a = 9 and b = 16 and s = 25])
     (simp_all add: round_to_numerals sqrt25)

lemma cell_magnitude_0_4: "cell_magnitude float64 float64 (Val 0) (Val 4) = Val 4"
  by (rule cell_magnitude_ValI [where a = 0 and b = 16 and s = 16])
     (simp_all add: round_to_numerals sqrt16)

lemma cell_magnitude_4_3: "cell_magnitude float64 float64 (Val 4) (Val 3) = Val 5"
  by (rule cell_magnitude_ValI [where a = 16 and b = 9 and s = 25])
     (simp_all add: round_to_numerals sqrt25)

lemma cell_magnitude_4_0: "cell_magnitude float64 float64 (Val 4) (Val 0) = Val 4"
  by (rule cell_magnitude_ValI [where a = 16 and b = 0 and s = 16])
     (simp_all add: round_to_numerals sqrt16)

lemmas evaluate_magnitude =
  magnitude_same_shape wf_marray_def cell_magnitude_3_4 cell_magnitude_0_4
  cell_magnitude_4_3 cell_magnitude_4_0 min_float_def result_type_same

lemma ex_magnitude: "magnitude ex_u_data ex_v_data = Inr ex_ivt_data"
  by (simp add: evaluate_magnitude ex_u_data_def ex_v_data_def ex_ivt_data_def)

lemma ex_magnitude2: "magnitude ex_u2_data ex_v2_data = Inr ex_ivt2_data"
  by (simp add: evaluate_magnitude ex_u2_data_def ex_v2_data_def ex_ivt2_data_def)

lemma ex_magnitude2_swapped: "magnitude ex_v2_data ex_u2_data = Inr ex_ivt2_data"
  by (simp add: evaluate_magnitude ex_u2_data_def ex_v2_data_def ex_ivt2_data_def)

lemma magnitude_unfold:
  "magnitude u v =
     (case binop cell_mul u u of
        Inl e \<Rightarrow> Inl e
      | Inr uu \<Rightarrow>
          (case binop cell_mul v v of
             Inl e \<Rightarrow> Inl e
           | Inr vv \<Rightarrow>
               (case binop cell_add uu vv of
                  Inl e \<Rightarrow> Inl e
                | Inr ss \<Rightarrow> Inr (ma_sqrt ss))))"
  unfolding magnitude_def ma_multiply_def ma_add_def by (rule refl)

lemma ex_magnitude_broadcast: "magnitude ex_u2_data ex_v_data = Inr ex_ivt2_data"
proof -
  have c: "cell_sqrt float64 (cell_add float64 (cell_mul float64 (Val x) (Val x))
             (cell_mul float64 (Val y) (Val y))) = cell_magnitude float64 float64 (Val x) (Val y)"
    for x y
    by (simp add: cell_magnitude_float float64_params)
  show ?thesis
    unfolding magnitude_unfold
    by (simp add: binop_def ma_sqrt_def broadcast_shapes_def pad_shape_def compatible_def
        bcast_index_def item_def eval_nat_numeral result_type_same min_float_def cast_same
        ex_u2_data_def ex_v_data_def ex_ivt2_data_def Let_def c cell_magnitude_3_4
        cell_magnitude_0_4 del: cell_mul.simps cell_add.simps)
qed

text \<open>An integer dtype: the square of 200 does not fit 16 bits.\<close>

lemma int16_square_wraps:
  "fits int16 200 \<and> cell_mul int16 (Val 200) (Val 200) = Val (- 25536)
   \<and> cell_magnitude int16 int16 (Val 200) (Val 0) = Masked"
proof -
  have w: "wrap_signed 16 40000 = - 25536" "wrap_signed 16 (- 25536) = - 25536"
    "wrap_signed 16 200 = 200" "wrap_signed 16 0 = 0"
    by (simp_all add: wrap_signed_def)
  have m: "cell_mul int16 (Val 200) (Val 200) = Val (- 25536)"
    using w(1) by (simp add: store_def)
  have z: "cell_mul int16 (Val 0) (Val 0) = Val 0"
    using w(4) by (simp add: store_def)
  have a: "cell_add int16 (Val (- 25536)) (Val 0) = Val (- 25536)"
    using w(2) by (simp add: store_def)
  have p: "fprec float32 = 24" "femin float32 = - 126" "femax float32 = 127"
    by (simp_all add: fprec_def femin_def femax_def)
  have "(- 25536::real) = of_int (- 25536) * 2 powr of_int 0" by simp
  then have "round_to float32 (- 25536) = Val (- 25536)"
  proof (rule round_to_exact)
    show "\<bar>- 25536::int\<bar> < 2 ^ fprec float32" by (simp add: p)
    show "femin float32 - int (fprec float32) + 1 \<le> 0" by (simp add: p)
    have "(2::real) powr 15 \<le> 2 powr 128" by (intro powr_mono) simp_all
    then show "\<bar>- 25536::real\<bar> < 2 powr (of_int (femax float32) + 1)" by (simp add: p)
  qed
  then have c: "cast int16 float32 (Val (- 25536)) = Val (- 25536)"
    by (simp add: cast_def store_def)
  have f: "fits int16 200" using w(3) by (simp add: fits_def store_def)
  have "cell_magnitude int16 int16 (Val 200) (Val 0) = Masked"
    by (simp add: cell_magnitude_def result_type_same min_float_def cast_same m z a c
        cell_sqrt_def del: cell_mul.simps cell_add.simps)
  then show ?thesis using m f by simp
qed

section \<open>Lemmas on the cells of the notebook\<close>

lemma then_cell_Inl: "then_cell (Inl e) f = Inl e"
  by (simp add: then_cell_def)

lemma run_all_locate_fails: "locate_inputs s = Inl e \<Longrightarrow> run_all s = Inl e"
  by (simp add: run_all_def then_cell_Inl)

lemma locate_u_missing:
  "files s UFLUX_FILE = None \<Longrightarrow>
   locate_inputs s = Inl (Exception UFLUX_MESSAGE, emit (Exists UFLUX_FILE) s)"
  by (simp add: locate_inputs_def path_exists_def)

lemma locate_v_missing:
  "files s UFLUX_FILE \<noteq> None \<Longrightarrow> files s VFLUX_FILE = None \<Longrightarrow>
   locate_inputs s =
     Inl (Exception VFLUX_MESSAGE, emit (Exists VFLUX_FILE) (emit (Exists UFLUX_FILE) s))"
  by (auto simp add: locate_inputs_def path_exists_def emit_def)

lemma ma_multiply_self: "\<exists>m. ma_multiply a a = Inr m \<and> shape m = shape a"
  by (simp add: ma_multiply_def binop_same_shape_total)

lemma binop_fails_iff:
  "(binop f a b = Inl e) = (broadcast_shapes (shape a) (shape b) = None \<and> e = ValueError)"
  by (auto simp: binop_def Let_def split: option.splits)

lemma binop_shape:
  "binop f a b = Inr m \<Longrightarrow> broadcast_shapes (shape a) (shape b) = Some (shape m)"
  by (auto simp: binop_def Let_def split: option.splits)

lemma magnitude_fails_iff:
  "(magnitude u v = Inl e) = (broadcast_shapes (shape u) (shape v) = None \<and> e = ValueError)"
proof -
  obtain uu vv where uu: "ma_multiply u u = Inr uu" "shape uu = shape u"
    and vv: "ma_multiply v v = Inr vv" "shape vv = shape v"
    using ma_multiply_self [of u] ma_multiply_self [of v] by auto
  have "(magnitude u v = Inl e) = (ma_add uu vv = Inl e)"
    by (simp add: magnitude_def uu vv split: sum.splits)
  then show ?thesis
    using binop_fails_iff [of cell_add uu vv e] by (simp add: ma_add_def uu vv)
qed

lemma magnitude_shape:
  assumes "magnitude u v = Inr m"
  shows "broadcast_shapes (shape u) (shape v) = Some (shape m)"
proof -
  obtain uu vv where uu: "ma_multiply u u = Inr uu" "shape uu = shape u"
    and vv: "ma_multiply v v = Inr vv" "shape vv = shape v"
    using ma_multiply_self [of u] ma_multiply_self [of v] by auto
  from assms obtain ss where ss: "ma_add uu vv = Inr ss" and m: "m = ma_sqrt ss"
    by (auto simp: magnitude_def uu vv split: sum.splits)
  show ?thesis
    using binop_shape [of cell_add uu vv ss] ss
    by (simp add: ma_add_def uu vv m ma_sqrt_def Let_def)
qed

lemma magnitude_succeeds:
  assumes "broadcast_shapes (shape u) (shape v) = Some sh"
  shows "\<exists>m. magnitude u v = Inr m \<and> shape m = sh"
proof (cases "magnitude u v")
  case (Inl e)
  then show ?thesis using assms by (simp add: magnitude_fails_iff)
next
  case (Inr m)
  then show ?thesis using assms magnitude_shape [OF Inr] by simp
qed

lemma compute_ivt_fails:
  "uflux s = Some u \<Longrightarrow> vflux s = Some v \<Longrightarrow> magnitude (data u) (data v) = Inl e \<Longrightarrow>
   compute_ivt s = Inl (e, s)"
  by (simp add: compute_ivt_def)

lemma compute_ivt_InrD:
  assumes "compute_ivt s = Inr s'"
  shows "\<exists>u v m. uflux s = Some u \<and> vflux s = Some v \<and> magnitude (data u) (data v) = Inr m \<and>
     s' = s\<lparr>ivt := Some \<lparr>data = m, var_id = ''ivt'', axislist = axislist u,
                       attributes =
                         [(''name'', ''ivt''),
                          (''long_name'', ''integrated vapor transport (IVT)''),
                          (''standard_name'', ''integrated_vapor_transport''),
                          (''title'', ''integrated vapor transport (IVT)''),
                          (''units'', getattr u ''units'' [])]\<rparr>\<rparr>"
  using assms by (auto simp: compute_ivt_def split: option.splits sum.splits)

lemma ex_compute: "compute_ivt ex_loaded = Inr ex_short"
  by (simp add: compute_ivt_def ex_loaded_def ex_short_def ex_u_def ex_v_def ex_magnitude
      getattr_def ex_ivt_attrs_def)

lemma ex_compute_no_units:
  "compute_ivt ex_no_units =
     Inr (ex_no_units\<lparr>ivt := Some \<lparr>data = ex_ivt_data, var_id = ''ivt'', axislist = 0,
        attributes =
          [(''name'', ''ivt''),
           (''long_name'', ''integrated vapor transport (IVT)''),
           (''standard_name'', ''integrated_vapor_transport''),
           (''title'', ''integrated vapor transport (IVT)''),
           (''units'', [])]\<rparr>\<rparr>)"
  by (simp add: compute_ivt_def ex_no_units_def ex_loaded_def ex_u_def ex_v_def ex_magnitude
      getattr_def)

text \<open>Reading back what was just written returns the Field with a new axis-list object.\<close>

lemma readNC_saveNC:
  "readNC path (var_id f) (saveNC path f s) =
     Inr (\<lparr>data = data f, var_id = var_id f, axislist = next_ref s, attributes = attributes f\<rparr>,
          (emit (Open path) (saveNC path f s))
            \<lparr>heap := (heap s)(next_ref s := heap s (axislist f)),
             next_ref := Suc (next_ref s)\<rparr>)"
  by (simp add: readNC_def saveNC_def emit_def Let_def)

lemma frame_compute:
  "uflux (state_of (compute_ivt s)) = uflux s \<and> vflux (state_of (compute_ivt s)) = vflux s \<and>
   heap (state_of (compute_ivt s)) = heap s"
  by (simp add: compute_ivt_def state_of_def split: option.splits sum.splits)

lemma frame_save: "same_fields s (state_of (save_output s))"
  by (simp add: same_fields_def save_output_def saveNC_def emit_def state_of_def
      split: option.splits)

lemma same_fields_emit: "same_fields s (emit e s') = same_fields s s'"
  by (simp add: same_fields_def emit_def)


lemma frame_panels: "same_fields s0 s \<Longrightarrow> same_fields s0 (state_of (plot_panels u t ps s))"
proof (induction ps arbitrary: s)
  case Nil
  then show ?case by (simp add: state_of_def)
next
  case (Cons p ps)
  obtain title vii where p: "p = (title, vii)" by (cases p)
  show ?case
  proof (cases "getLongitude u s")
    case (Inl e)
    then show ?thesis using Cons.prems by (simp add: p state_of_def)
  next
    case lon: (Inr lon)
    show ?thesis
    proof (cases "getLatitude u s")
      case (Inl e)
      then show ?thesis using Cons.prems lon by (simp add: p state_of_def)
    next
      case (Inr lat)
      then show ?thesis
        using lon Cons.IH [of "emit (Panel title t vii lon lat) s"] Cons.prems
        by (simp add: p same_fields_emit)
    qed
  qed
qed

lemma frame_plot: "same_fields s (state_of (plot_fields s))"
proof -
  have same: "same_fields s s" by (simp add: same_fields_def)
  have panels:
    "same_fields s (state_of (case plot_panels u t ps s of
                                Inl e \<Rightarrow> Inl e | Inr s1 \<Rightarrow> Inr (emit Show s1)))"
    for u t ps
    using frame_panels [OF same, of u t ps]
    by (cases "plot_panels u t ps s") (auto simp: state_of_def same_fields_emit)
  show ?thesis
    unfolding plot_fields_def
    by (auto simp: same panels simp del: plot_panels.simps split: option.splits sum.splits)
       (simp_all add: state_of_def same)
qed








lemmas evaluate_cells =
  run_all_def then_cell_def locate_inputs_def path_exists_def emit_def UFLUX_FILE_def
  VFLUX_FILE_def OUTPUTFILE_def load_fields_def readNC_def print_axis_def
  print_vflux_info_def get_axis_def getLatitude_def getLongitude_def getTime_def
  compute_ivt_def getattr_def save_output_def saveNC_def plot_fields_def idx_def Let_def

text \<open>
  The one-cell scenario from the first cell to the last: the output file is written, and
  the plot cell then raises IndexError, since the time axis has no position 100.
\<close>

lemma ex_run:
  "\<exists>s'. run_all ex_state = Inl (IndexError, s') \<and>
     (\<exists>f. files s' OUTPUTFILE = Some f \<and>
        f ''ivt'' = Some \<lparr>nc_data = ex_ivt_data, nc_axes = ex_axes, nc_attrs = ex_ivt_attrs\<rparr>)"
  by (simp add: evaluate_cells ex_state_def fresh_def ex_u_file_def ex_v_file_def ex_axes_def
      ex_magnitude ex_ivt_attrs_def)

section \<open>The claims\<close>

text \<open>
  C1, as stated, fails: the value 2 to the 512 is a \<^verbatim>\<open>float64\<close> number whose square
  overflows, so with v = 4 at the same cell the magnitude there is masked and is not
  \<open>sqrt (u\<^sup>2 + v\<^sup>2)\<close>, which is about 2 to the 512.
\<close>

theorem square_overflow_is_masked:
  "wf_marray ex_big_data \<and> wf_marray ex_v_data \<and> shape ex_v_data = shape ex_big_data
   \<and> fits float64 (2 powr 512)
   \<and> getitem ex_big_data [0, 0, 0] = Inr (Val (2 powr 512))
   \<and> getitem ex_v_data [0, 0, 0] = Inr (Val 4)
   \<and> magnitude ex_big_data ex_v_data =
       Inr \<lparr>dtype = float64, shape = [1, 1, 1], elems = [Masked]\<rparr>"
proof -
  have "(2::real) powr 1024 = 2 powr 512 * 2 powr 512" by (simp add: powr_add [symmetric])
  then have "cell_magnitude float64 float64 (Val (2 powr 512)) (Val 4) = Masked"
    by (intro cell_magnitude_overflow) (simp_all add: float64_params)
  then have m: "magnitude ex_big_data ex_v_data =
       Inr \<lparr>dtype = float64, shape = [1, 1, 1], elems = [Masked]\<rparr>"
    by (simp add: magnitude_same_shape wf_marray_def ex_big_data_def ex_v_data_def
        min_float_def result_type_same)
  have "(2::real) powr 512 = of_int 1 * 2 powr of_int 512" by simp
  then have "round_to float64 (2 powr 512) = Val (2 powr 512)"
    by (rule round_to_exact) (simp_all add: float64_params)
  then have f: "fits float64 (2 powr 512)"
    by (simp add: fits_def store_def)
  show ?thesis
    using m f
    by (simp add: wf_marray_def getitem_def item_def ex_big_data_def ex_v_data_def)
qed

text \<open>
  C1, amended. For two fields of identical shape the magnitude computer returns a field of
  that shape whose cell at every index is computed from the two input cells at that same
  index alone, by evaluating \<open>sqrt (x * x + y * y)\<close> in the arithmetic of the arrays: no
  other cell and no other time step enters. The index \<open>ix\<close> is \<open>[t, i, j]\<close> for a (time,
  latitude, longitude) array. For floating-point fields of one dtype and two finite values
  \<open>x\<close> and \<open>y\<close>: the cell is masked or holds a finite number, never an infinity or NaN; when
  it is not masked and neither square underflows, it is within a relative error of
  \<open>3 * 2 powr (- p)\<close> of \<open>sqrt (x\<^sup>2 + y\<^sup>2)\<close>, with \<open>p\<close> the precision of the dtype; it is not
  masked whenever \<open>x\<^sup>2 + y\<^sup>2\<close> is at most \<open>2 powr (emax - 1)\<close>; it is masked whenever \<open>x * x\<close> is
  \<open>2 powr (emax + 1)\<close> or more. In an integer dtype the squares and their sum wrap around
  before the root is taken: the \<^verbatim>\<open>int16\<close> value 200 with 0 gives a masked cell, its square
  being stored as -25536. In the one-cell scenario u = 3, v = 4 the magnitude is 5, and
  the run of the notebook leaves an output file that holds a variable named \<^verbatim>\<open>ivt\<close> with
  that value and the axes of u. (On that grid the run then ends in the plot cell, which
  raises IndexError after the file is written.)
\<close>

theorem magnitude_per_cell:
  "(\<forall>u v ix c e.
      wf_marray u \<and> wf_marray v \<and> shape v = shape u \<and>
      getitem u ix = Inr c \<and> getitem v ix = Inr e \<longrightarrow>
      (\<exists>m. magnitude u v = Inr m \<and> shape m = shape u \<and>
           getitem m ix = Inr (cell_magnitude (dtype u) (dtype v) c e)))
   \<and> (\<forall>d x y. kind_of d = FloatK \<longrightarrow>
         cell_magnitude d d (Val x) (Val y) = Masked \<or>
         (\<exists>r. cell_magnitude d d (Val x) (Val y) = Val r))
   \<and> (\<forall>d x y r.
         kind_of d = FloatK \<and>
         (x = 0 \<or> 2 powr of_int (femin d) \<le> x * x) \<and>
         (y = 0 \<or> 2 powr of_int (femin d) \<le> y * y) \<and>
         cell_magnitude d d (Val x) (Val y) = Val r \<longrightarrow>
         \<bar>r - sqrt (x\<^sup>2 + y\<^sup>2)\<bar> \<le> 3 * 2 powr (- real (fprec d)) * sqrt (x\<^sup>2 + y\<^sup>2))
   \<and> (\<forall>d x y.
         kind_of d = FloatK \<and> x\<^sup>2 + y\<^sup>2 \<le> 2 powr of_int (femax d - 1) \<longrightarrow>
         (\<exists>r. cell_magnitude d d (Val x) (Val y) = Val r))
   \<and> (\<forall>d x e.
         kind_of d = FloatK \<and> 2 powr (of_int (femax d) + 1) \<le> x * x \<longrightarrow>
         cell_magnitude d d (Val x) e = Masked)
   \<and> fits int16 200 \<and> cell_mul int16 (Val 200) (Val 200) = Val (- 25536)
   \<and> cell_magnitude int16 int16 (Val 200) (Val 0) = Masked
   \<and> magnitude ex_u_data ex_v_data = Inr ex_ivt_data
   \<and> (\<exists>s'. run_all ex_state = Inl (IndexError, s') \<and>
        (\<exists>f. files s' OUTPUTFILE = Some f \<and>
           f ''ivt'' =
             Some \<lparr>nc_data = ex_ivt_data, nc_axes = ex_axes, nc_attrs = ex_ivt_attrs\<rparr>))"
proof (intro conjI allI impI)
  fix u v :: marray and ix :: "nat list" and c e :: cell
  assume a: "wf_marray u \<and> wf_marray v \<and> shape v = shape u \<and>
      getitem u ix = Inr c \<and> getitem v ix = Inr e"
  then have wu: "wf_marray u" and wv: "wf_marray v" and sh: "shape v = shape u" by simp_all
  have ok: "valid_index (shape u) ix" and c: "item u ix = c" and e: "item v ix = e"
    using a getitem_InrD [of u ix c] getitem_InrD [of v ix e] by simp_all
  show "\<exists>m. magnitude u v = Inr m \<and> shape m = shape u \<and>
           getitem m ix = Inr (cell_magnitude (dtype u) (dtype v) c e)"
    using getitem_magnitude [OF wu wv sh ok] unfolding c e .
next
  fix d :: dtype and x y :: real
  assume d: "kind_of d = FloatK"
  show "cell_magnitude d d (Val x) (Val y) = Masked \<or>
         (\<exists>r. cell_magnitude d d (Val x) (Val y) = Val r)"
    unfolding cell_magnitude_float [OF d] cell_sqrt_def
    by (cases "f_sqrt d (cell_add d (cell_mul d (Val x) (Val x)) (cell_mul d (Val y) (Val y)))")
       simp_all
next
  fix d :: dtype and x y r :: real
  assume a: "kind_of d = FloatK \<and>
         (x = 0 \<or> 2 powr of_int (femin d) \<le> x * x) \<and>
         (y = 0 \<or> 2 powr of_int (femin d) \<le> y * y) \<and>
         cell_magnitude d d (Val x) (Val y) = Val r"
  then have r: "r = rnd_real (fprec d) (femin d)
               (sqrt (rnd_real (fprec d) (femin d)
                  (rnd_real (fprec d) (femin d) (x * x) + rnd_real (fprec d) (femin d) (y * y))))"
    by (intro cell_magnitude_ValD) simp_all
  show "\<bar>r - sqrt (x\<^sup>2 + y\<^sup>2)\<bar> \<le> 3 * 2 powr (- real (fprec d)) * sqrt (x\<^sup>2 + y\<^sup>2)"
    unfolding r power2_eq_square
    using a float_params(1,3) [of d] by (intro hypot_error) simp_all
next
  fix d :: dtype and x y :: real
  assume "kind_of d = FloatK \<and> x\<^sup>2 + y\<^sup>2 \<le> 2 powr of_int (femax d - 1)"
  then show "\<exists>r. cell_magnitude d d (Val x) (Val y) = Val r"
    by (intro cell_magnitude_in_range) (simp_all add: power2_eq_square)
next
  fix d :: dtype and x :: real and e :: cell
  assume "kind_of d = FloatK \<and> 2 powr (of_int (femax d) + 1) \<le> x * x"
  then show "cell_magnitude d d (Val x) e = Masked"
    by (intro cell_magnitude_overflow) simp_all
next
  show "fits int16 200" "cell_mul int16 (Val 200) (Val 200) = Val (- 25536)"
    "cell_magnitude int16 int16 (Val 200) (Val 0) = Masked"
    using int16_square_wraps by simp_all
next
  show "magnitude ex_u_data ex_v_data = Inr ex_ivt_data" by (rule ex_magnitude)
next
  show "\<exists>s'. run_all ex_state = Inl (IndexError, s') \<and>
        (\<exists>f. files s' OUTPUTFILE = Some f \<and>
           f ''ivt'' =
             Some \<lparr>nc_data = ex_ivt_data, nc_axes = ex_axes, nc_attrs = ex_ivt_attrs\<rparr>)"
    by (rule ex_run)
qed

theorem magnitude_per_cell_witness:
  "wf_marray ex_u2_data \<and> wf_marray ex_v2_data \<and> shape ex_v2_data = shape ex_u2_data
   \<and> dtype ex_u2_data = float64 \<and> dtype ex_v2_data = float64 \<and> kind_of float64 = FloatK
   \<and> getitem ex_u2_data [0, 0, 0] = Inr (Val 3) \<and> getitem ex_v2_data [0, 0, 0] = Inr (Val 4)
   \<and> (2 powr of_int (femin float64) \<le> (3::real) * 3)
   \<and> (2 powr of_int (femin float64) \<le> (4::real) * 4)
   \<and> (3::real)\<^sup>2 + 4\<^sup>2 \<le> 2 powr of_int (femax float64 - 1)
   \<and> cell_magnitude float64 float64 (Val 3) (Val 4) = Val 5
   \<and> \<bar>5 - sqrt (3\<^sup>2 + 4\<^sup>2)\<bar> \<le> 3 * 2 powr (- real (fprec float64)) * sqrt (3\<^sup>2 + 4\<^sup>2)
   \<and> (\<exists>m. magnitude ex_u2_data ex_v2_data = Inr m \<and> shape m = shape ex_u2_data \<and>
          getitem m [0, 0, 0] = Inr (Val 5))
   \<and> 2 powr (of_int (femax float64) + 1) \<le> (2::real) powr 512 * 2 powr 512
   \<and> cell_magnitude float64 float64 (Val (2 powr 512)) (Val 4) = Masked"
proof -
  have h: "wf_marray ex_u2_data \<and> wf_marray ex_v2_data \<and> shape ex_v2_data = shape ex_u2_data
      \<and> getitem ex_u2_data [0, 0, 0] = Inr (Val 3) \<and> getitem ex_v2_data [0, 0, 0] = Inr (Val 4)"
    and t: "dtype ex_u2_data = float64" "dtype ex_v2_data = float64"
    by (simp_all add: wf_marray_def getitem_def item_def ex_u2_data_def ex_v2_data_def)
  have one: "(2::real) powr of_int (femin float64) \<le> 1"
    using powr_mono [of "of_int (femin float64)" 0 "2::real"] by (simp add: float64_params)
  have lo: "2 powr of_int (femin float64) \<le> (3::real) * 3"
    "2 powr of_int (femin float64) \<le> (4::real) * 4"
    using one by simp_all
  have "(2::real) powr 5 \<le> 2 powr of_int (femax float64 - 1)"
    by (intro powr_mono) (simp_all add: float64_params)
  then have hi: "(3::real)\<^sup>2 + 4\<^sup>2 \<le> 2 powr of_int (femax float64 - 1)" by simp
  have big: "2 powr (of_int (femax float64) + 1) \<le> (2::real) powr 512 * 2 powr 512"
    by (simp add: float64_params powr_add [symmetric])
  have k: "kind_of float64 = FloatK" by simp
  have v: "cell_magnitude float64 float64 (Val 3) (Val 4) = Val 5" by (rule cell_magnitude_3_4)
  have m: "\<exists>m. magnitude ex_u2_data ex_v2_data = Inr m \<and> shape m = shape ex_u2_data \<and>
          getitem m [0, 0, 0] = Inr (Val 5)"
    using h t v
      magnitude_per_cell [THEN conjunct1, rule_format,
        of ex_u2_data ex_v2_data "[0, 0, 0]" "Val 3" "Val 4"]
    by simp
  have b: "\<bar>5 - sqrt (3\<^sup>2 + 4\<^sup>2)\<bar> \<le> 3 * 2 powr (- real (fprec float64)) * sqrt (3\<^sup>2 + 4\<^sup>2)"
    using k lo v
      magnitude_per_cell [THEN conjunct2, THEN conjunct2, THEN conjunct1, rule_format, of float64 3 4 5]
    by simp
  have o: "cell_magnitude float64 float64 (Val (2 powr 512)) (Val 4) = Masked"
    using k big
      magnitude_per_cell [THEN conjunct2, THEN conjunct2, THEN conjunct2, THEN conjunct2, THEN conjunct1,
        rule_format, of float64 "2 powr 512" "Val 4"]
    by simp
  show ?thesis using h t k lo hi v m b o big by simp
qed

text \<open>
  C3. For two fields of identical shape and every cell position, if the value of either
  input at that position is masked, the magnitude is computed and its value at that
  position is masked.
\<close>

theorem masked_propagates:
  assumes "wf_marray u" and "wf_marray v" and "shape v = shape u"
    and "getitem u ix = Inr Masked \<or> getitem v ix = Inr Masked"
  shows "\<exists>m. magnitude u v = Inr m \<and> getitem m ix = Inr Masked"
proof -
  have ok: "valid_index (shape u) ix" and c: "item u ix = Masked \<or> item v ix = Masked"
    using assms(3,4) by (auto dest: getitem_InrD)
  show ?thesis
    using getitem_magnitude [OF assms(1,2,3) ok] masked_cell [OF c] by auto
qed

theorem masked_propagates_witness:
  "wf_marray ex_neg_data \<and> wf_marray ex_u2_data \<and> shape ex_u2_data = shape ex_neg_data
   \<and> getitem ex_neg_data [1, 0, 0] = Inr Masked
   \<and> getitem ex_u2_data [1, 0, 0] = Inr (Val 0)
   \<and> (\<exists>m. magnitude ex_neg_data ex_u2_data = Inr m \<and> getitem m [1, 0, 0] = Inr Masked)
   \<and> (\<exists>m. magnitude ex_u2_data ex_neg_data = Inr m \<and> getitem m [1, 0, 0] = Inr Masked)"
proof -
  have w: "wf_marray ex_neg_data" "wf_marray ex_u2_data"
    and s: "shape ex_u2_data = shape ex_neg_data"
    and g: "getitem ex_neg_data [1, 0, 0] = Inr Masked"
    and g': "getitem ex_u2_data [1, 0, 0] = Inr (Val 0)"
    by (simp_all add: wf_marray_def getitem_def item_def ex_neg_data_def ex_u2_data_def)
  show ?thesis
    using w s g g'
      masked_propagates [OF w(1) w(2) s, of "[1, 0, 0]"]
      masked_propagates [OF w(2) w(1) s [symmetric], of "[1, 0, 0]"]
    by simp
qed

text \<open>
  C7. The magnitude is commutative: for two fields of equal shape it is computed both
  ways round, and the two results are the same array.
\<close>

theorem magnitude_commutes:
  assumes "shape v = shape u"
  shows "\<exists>m. magnitude u v = Inr m \<and> magnitude v u = Inr m"
proof -
  let ?d = "result_type (dtype u) (dtype v)"
  obtain uu vv where uu: "ma_multiply u u = Inr uu" "shape uu = shape u" "dtype uu = dtype u"
    and vv: "ma_multiply v v = Inr vv" "shape vv = shape u" "dtype vv = dtype v"
    using assms by (simp add: ma_multiply_def binop_same_shape_total result_type_same)
  have d: "result_type (dtype v) (dtype u) = ?d" by (rule result_type_commute)
  have "ma_add vv uu = ma_add uu vv"
    by (simp add: ma_add_def binop_same_shape_total uu vv d cell_add_commute [of ?d])
  moreover have "\<exists>ss. ma_add uu vv = Inr ss"
    by (simp add: ma_add_def binop_same_shape_total uu vv)
  ultimately show ?thesis
    by (auto simp: magnitude_def uu vv)
qed

theorem magnitude_commutes_witness:
  "shape ex_v2_data = shape ex_u2_data
   \<and> magnitude ex_u2_data ex_v2_data = Inr ex_ivt2_data
   \<and> magnitude ex_v2_data ex_u2_data = Inr ex_ivt2_data"
proof -
  have s: "shape ex_v2_data = shape ex_u2_data"
    by (simp add: ex_u2_data_def ex_v2_data_def)
  show ?thesis
    using s magnitude_commutes [OF s] ex_magnitude2 by simp
qed




text \<open>
  C2. If the u-file does not exist, the run raises the exception whose message names
  \<^verbatim>\<open>UFLUX_FILE\<close>, and the state it leaves is the initial state with one more event, the
  existence check of the u-file: the v-file was not checked, no file was opened, no
  variable was bound and nothing was computed. If the u-file exists and the v-file does
  not, the run raises the exception whose message names \<^verbatim>\<open>VFLUX_FILE\<close>, and only the two
  existence checks have happened.
\<close>

theorem missing_input_file:
  "(files s UFLUX_FILE = None \<longrightarrow>
      run_all s = Inl (Exception UFLUX_MESSAGE, emit (Exists UFLUX_FILE) s))
   \<and> (files s UFLUX_FILE \<noteq> None \<and> files s VFLUX_FILE = None \<longrightarrow>
      run_all s =
        Inl (Exception VFLUX_MESSAGE, emit (Exists VFLUX_FILE) (emit (Exists UFLUX_FILE) s)))
   \<and> take 10 UFLUX_MESSAGE = ''UFLUX_FILE'' \<and> take 10 VFLUX_MESSAGE = ''VFLUX_FILE''"
  by (auto simp: run_all_locate_fails locate_u_missing locate_v_missing
      UFLUX_MESSAGE_def VFLUX_MESSAGE_def)

theorem missing_input_file_witness:
  "files (fresh Map.empty) UFLUX_FILE = None
   \<and> run_all (fresh Map.empty) =
       Inl (Exception UFLUX_MESSAGE, emit (Exists UFLUX_FILE) (fresh Map.empty))
   \<and> events (emit (Exists UFLUX_FILE) (fresh Map.empty)) = [Exists UFLUX_FILE]
   \<and> files (fresh [UFLUX_FILE \<mapsto> ex_u_file]) UFLUX_FILE \<noteq> None
   \<and> files (fresh [UFLUX_FILE \<mapsto> ex_u_file]) VFLUX_FILE = None
   \<and> run_all (fresh [UFLUX_FILE \<mapsto> ex_u_file]) =
       Inl (Exception VFLUX_MESSAGE,
            emit (Exists VFLUX_FILE) (emit (Exists UFLUX_FILE) (fresh [UFLUX_FILE \<mapsto> ex_u_file])))
   \<and> events (emit (Exists VFLUX_FILE) (emit (Exists UFLUX_FILE) (fresh [UFLUX_FILE \<mapsto> ex_u_file])))
       = [Exists UFLUX_FILE, Exists VFLUX_FILE]"
proof -
  have a: "files (fresh Map.empty) UFLUX_FILE = None" by (simp add: fresh_def)
  have b: "files (fresh [UFLUX_FILE \<mapsto> ex_u_file]) UFLUX_FILE \<noteq> None"
    "files (fresh [UFLUX_FILE \<mapsto> ex_u_file]) VFLUX_FILE = None"
    by (simp_all add: fresh_def UFLUX_FILE_def VFLUX_FILE_def)
  show ?thesis
    using a b missing_input_file [of "fresh Map.empty"]
      missing_input_file [of "fresh [UFLUX_FILE \<mapsto> ex_u_file]"]
    by (simp add: emit_def fresh_def)
qed

text \<open>
  C4. Whenever the derived field is computed, it is named \<^verbatim>\<open>ivt\<close> and its metadata is
  exactly the block of name, long_name, standard_name and title with their fixed strings,
  followed by units: the units attribute of the first input field when it has one, the
  empty string otherwise.
\<close>

theorem ivt_metadata:
  assumes "uflux s = Some u" and "compute_ivt s = Inr s'"
  shows "\<exists>w. ivt s' = Some w \<and> var_id w = ''ivt'' \<and>
     attributes w =
       [(''name'', ''ivt''),
        (''long_name'', ''integrated vapor transport (IVT)''),
        (''standard_name'', ''integrated_vapor_transport''),
        (''title'', ''integrated vapor transport (IVT)''),
        (''units'', case map_of (attributes u) ''units'' of None \<Rightarrow> [] | Some x \<Rightarrow> x)]"
  using compute_ivt_InrD [OF assms(2)] assms(1) by (auto simp: getattr_def)

theorem ivt_metadata_witness:
  "uflux ex_loaded = Some ex_u
   \<and> (\<exists>s'. compute_ivt ex_loaded = Inr s' \<and>
        (\<exists>w. ivt s' = Some w \<and> var_id w = ''ivt'' \<and>
           attributes w =
             [(''name'', ''ivt''),
              (''long_name'', ''integrated vapor transport (IVT)''),
              (''standard_name'', ''integrated_vapor_transport''),
              (''title'', ''integrated vapor transport (IVT)''),
              (''units'', ''kg m**-1 s**-1'')]))
   \<and> uflux ex_no_units = Some (ex_u\<lparr>attributes := []\<rparr>)
   \<and> (\<exists>s'. compute_ivt ex_no_units = Inr s' \<and>
        (\<exists>w. ivt s' = Some w \<and> var_id w = ''ivt'' \<and>
           attributes w =
             [(''name'', ''ivt''),
              (''long_name'', ''integrated vapor transport (IVT)''),
              (''standard_name'', ''integrated_vapor_transport''),
              (''title'', ''integrated vapor transport (IVT)''),
              (''units'', [])]))"
proof -
  have u: "uflux ex_loaded = Some ex_u" by (simp add: ex_loaded_def)
  have n: "uflux ex_no_units = Some (ex_u\<lparr>attributes := []\<rparr>)"
    by (simp add: ex_no_units_def)
  have au: "map_of (attributes ex_u) ''units'' = Some ''kg m**-1 s**-1''"
    by (simp add: ex_u_def)
  show ?thesis
    using u n ivt_metadata [OF u ex_compute] ivt_metadata [OF n ex_compute_no_units]
    by (simp add: ex_compute ex_compute_no_units au)
qed

text \<open>
  C5. Whenever the derived field is computed, its axis list is the very axis-list object
  of the first input field (the same address, whatever the second input holds), and the
  computation leaves every axis-list object as it was. Writing the derived field and
  reading it back gives a field whose axes have the values of the first input's axes.
\<close>

theorem ivt_axes_inherited:
  assumes "uflux s = Some u" and "compute_ivt s = Inr s'"
  shows "\<exists>w. ivt s' = Some w \<and> axislist w = axislist u \<and> heap s' = heap s \<and>
     (\<exists>g s''. readNC OUTPUTFILE ''ivt'' (saveNC OUTPUTFILE w s') = Inr (g, s'') \<and>
        heap s'' (axislist g) = heap s (axislist u))"
proof -
  from compute_ivt_InrD [OF assms(2)] assms(1)
  obtain w where w: "ivt s' = Some w" "axislist w = axislist u" "heap s' = heap s"
    "var_id w = ''ivt''"
    by auto
  show ?thesis
    using w readNC_saveNC [of OUTPUTFILE w s'] by simp
qed

theorem ivt_axes_inherited_witness:
  "uflux ex_loaded = Some ex_u \<and> compute_ivt ex_loaded = Inr ex_short
   \<and> heap ex_loaded (axislist ex_u) = ex_axes
   \<and> heap ex_loaded (axislist ex_v) = [[1], [11], [21]]
   \<and> (\<exists>w. ivt ex_short = Some w \<and> axislist w = axislist ex_u \<and>
        heap ex_short = heap ex_loaded \<and>
        (\<exists>g s''. readNC OUTPUTFILE ''ivt'' (saveNC OUTPUTFILE w ex_short) = Inr (g, s'') \<and>
           heap s'' (axislist g) = ex_axes))"
proof -
  have u: "uflux ex_loaded = Some ex_u" by (simp add: ex_loaded_def)
  have h: "heap ex_loaded (axislist ex_u) = ex_axes"
    "heap ex_loaded (axislist ex_v) = [[1], [11], [21]]"
    by (simp_all add: ex_loaded_def ex_u_def ex_v_def)
  show ?thesis
    using u h ex_compute ivt_axes_inherited [OF u ex_compute] by simp
qed

text \<open>
  C6, as stated, fails: two time steps of u against one time step of v are fields of
  unequal shapes, and the magnitude is computed, the single step of v being broadcast.
\<close>

theorem unequal_shapes_broadcast:
  "wf_marray ex_u2_data \<and> wf_marray ex_v_data \<and> shape ex_u2_data \<noteq> shape ex_v_data
   \<and> magnitude ex_u2_data ex_v_data = Inr ex_ivt2_data"
  by (simp add: ex_magnitude_broadcast)
     (simp add: ex_u2_data_def ex_v_data_def wf_marray_def)

text \<open>
  C6, amended. The notebook checks neither shapes nor axes. The magnitude computation
  fails exactly when the two shapes do not broadcast (aligned at the last axis, some pair
  of extents differs and neither is 1); the failure is the ValueError of the numeric
  layer, and the cell lets it through with the state as it was. Two shapes that broadcast
  give a result of the broadcast shape, and two equal shapes always do.
\<close>

theorem shape_mismatch_surfaces:
  "((magnitude u v = Inl e) = (broadcast_shapes (shape u) (shape v) = None \<and> e = ValueError))
   \<and> (\<forall>m. magnitude u v = Inr m \<longrightarrow> broadcast_shapes (shape u) (shape v) = Some (shape m))
   \<and> (\<forall>sh. broadcast_shapes (shape u) (shape v) = Some sh \<longrightarrow>
         (\<exists>m. magnitude u v = Inr m \<and> shape m = sh))
   \<and> (shape v = shape u \<longrightarrow> (\<exists>m. magnitude u v = Inr m \<and> shape m = shape u))
   \<and> (\<forall>s fu fv. uflux s = Some fu \<and> vflux s = Some fv \<and> data fu = u \<and> data fv = v \<and>
         broadcast_shapes (shape u) (shape v) = None \<longrightarrow>
         compute_ivt s = Inl (ValueError, s))"
proof (intro conjI allI impI)
  show "(magnitude u v = Inl e) = (broadcast_shapes (shape u) (shape v) = None \<and> e = ValueError)"
    by (rule magnitude_fails_iff)
next
  fix m
  assume "magnitude u v = Inr m"
  then show "broadcast_shapes (shape u) (shape v) = Some (shape m)"
    by (rule magnitude_shape)
next
  fix sh
  assume "broadcast_shapes (shape u) (shape v) = Some sh"
  then show "\<exists>m. magnitude u v = Inr m \<and> shape m = sh"
    by (rule magnitude_succeeds)
next
  assume "shape v = shape u"
  then have "broadcast_shapes (shape u) (shape v) = Some (shape u)"
    by (simp add: broadcast_shapes_same)
  then show "\<exists>m. magnitude u v = Inr m \<and> shape m = shape u"
    by (rule magnitude_succeeds)
next
  fix s :: nb_state and fu fv :: NCVAR
  assume a: "uflux s = Some fu \<and> vflux s = Some fv \<and> data fu = u \<and> data fv = v \<and>
         broadcast_shapes (shape u) (shape v) = None"
  then have "magnitude (data fu) (data fv) = Inl ValueError"
    by (simp add: magnitude_fails_iff)
  then show "compute_ivt s = Inl (ValueError, s)"
    using a compute_ivt_fails [of s fu fv ValueError] by simp
qed

theorem shape_mismatch_surfaces_witness:
  "broadcast_shapes (shape ex_u2_data) (shape ex_v3_data) = None
   \<and> magnitude ex_u2_data ex_v3_data = Inl ValueError
   \<and> uflux ex_mismatch = Some (ex_u\<lparr>data := ex_u2_data\<rparr>)
   \<and> vflux ex_mismatch = Some (ex_v\<lparr>data := ex_v3_data\<rparr>)
   \<and> compute_ivt ex_mismatch = Inl (ValueError, ex_mismatch)
   \<and> broadcast_shapes (shape ex_u2_data) (shape ex_v_data) = Some [2, 1, 1]
   \<and> (\<exists>m. magnitude ex_u2_data ex_v_data = Inr m \<and> shape m = [2, 1, 1])
   \<and> shape ex_v2_data = shape ex_u2_data
   \<and> (\<exists>m. magnitude ex_u2_data ex_v2_data = Inr m \<and> shape m = shape ex_u2_data)"
proof -
  have n: "broadcast_shapes (shape ex_u2_data) (shape ex_v3_data) = None"
    by (simp add: broadcast_shapes_def pad_shape_def compatible_def ex_u2_data_def
        ex_v3_data_def)
  have b: "broadcast_shapes (shape ex_u2_data) (shape ex_v_data) = Some [2, 1, 1]"
    by (simp add: broadcast_shapes_def pad_shape_def compatible_def ex_u2_data_def
        ex_v_data_def)
  have e: "shape ex_v2_data = shape ex_u2_data"
    by (simp add: ex_u2_data_def ex_v2_data_def)
  have f: "uflux ex_mismatch = Some (ex_u\<lparr>data := ex_u2_data\<rparr>)"
    "vflux ex_mismatch = Some (ex_v\<lparr>data := ex_v3_data\<rparr>)"
    by (simp_all add: ex_mismatch_def)
  show ?thesis
    using n b e f shape_mismatch_surfaces [of ex_u2_data ex_v3_data ValueError]
      shape_mismatch_surfaces [of ex_u2_data ex_v_data ValueError]
      shape_mismatch_surfaces [of ex_u2_data ex_v2_data ValueError]
    by simp
qed

text \<open>
  C9. Computing the derived field leaves the two input fields (data, attributes and the
  reference to their axes) and every axis-list object unchanged, whether the computation
  succeeds or raises. Writing and plotting leave all three fields and every axis-list
  object unchanged, whether they succeed or raise.
\<close>

theorem fields_not_mutated:
  "uflux (state_of (compute_ivt s)) = uflux s
   \<and> vflux (state_of (compute_ivt s)) = vflux s
   \<and> heap (state_of (compute_ivt s)) = heap s
   \<and> same_fields s (state_of (save_output s))
   \<and> same_fields s (state_of (plot_fields s))"
  using frame_compute [of s] frame_save [of s] frame_plot [of s] by simp

theorem fields_not_mutated_witness:
  "state_of (compute_ivt ex_loaded) = ex_short
   \<and> uflux ex_short = uflux ex_loaded \<and> vflux ex_short = vflux ex_loaded
   \<and> heap ex_short = heap ex_loaded
   \<and> uflux (state_of (save_output ex_short)) = Some ex_u
   \<and> vflux (state_of (save_output ex_short)) = Some ex_v
   \<and> ivt (state_of (save_output ex_short)) = ivt ex_short
   \<and> heap (state_of (save_output ex_short)) = heap ex_short
   \<and> uflux (state_of (plot_fields ex_long)) = Some ex_long_field
   \<and> vflux (state_of (plot_fields ex_long)) = Some ex_long_field
   \<and> ivt (state_of (plot_fields ex_long)) = Some ex_long_field
   \<and> heap (state_of (plot_fields ex_long)) = heap ex_long"
proof -
  have c: "state_of (compute_ivt ex_loaded) = ex_short"
    by (simp add: ex_compute state_of_def)
  have u: "uflux ex_short = Some ex_u" "vflux ex_short = Some ex_v"
    by (simp_all add: ex_short_def ex_loaded_def)
  have l: "uflux ex_long = Some ex_long_field" "vflux ex_long = Some ex_long_field"
    "ivt ex_long = Some ex_long_field"
    by (simp_all add: ex_long_def)
  show ?thesis
    using c u l fields_not_mutated [of ex_loaded] fields_not_mutated [of ex_short]
      fields_not_mutated [of ex_long]
    by (simp add: same_fields_def)
qed



end
